theory Spec2Isabelle
  imports Main
begin

section \<open>Errors\<close>

text \<open>
  Go errors as values. \<open>New msg\<close> is \<^verbatim>\<open>errors.New(msg)\<close> (and \<^verbatim>\<open>errors.Errorf\<close>,
  \<^verbatim>\<open>fmt.Errorf\<close> with the formatted text), \<open>Wrap e msg\<close> is \<^verbatim>\<open>errors.Wrap(e, msg)\<close>,
  \<open>Panic msg\<close> is a run-time panic of the Go runtime or of package reflect.
  A Go \<^verbatim>\<open>error\<close> result is an \<open>error option\<close>: \<open>None\<close> is \<^verbatim>\<open>nil\<close>.
\<close>

datatype error = New string | Wrap error string | Panic string

definition ErrLocked :: error where
  "ErrLocked = New ''Keystore is locked''"

section \<open>Keys and the key ring (master.go)\<close>

text \<open>
  The five concrete key types \<^verbatim>\<open>csakey.KeyV2\<close>, \<^verbatim>\<open>ethkey.KeyV2\<close>, \<^verbatim>\<open>ocrkey.KeyV2\<close>,
  \<^verbatim>\<open>p2pkey.KeyV2\<close>, \<^verbatim>\<open>vrfkey.KeyV2\<close> are opaque: a stable identifier and the secret
  material. The interface \<^verbatim>\<open>Key\<close> (one method, \<^verbatim>\<open>ID()\<close>) is the sum of the five
  and of every other type with an \<^verbatim>\<open>ID()\<close> method, \<open>OtherKey\<close> with its type name.
\<close>

datatype keyV2 = KeyV2 (ident: string) (secret: string)

datatype key =
    CsaKeyV2 keyV2
  | EthKeyV2 keyV2
  | OcrKeyV2 keyV2
  | P2pKeyV2 keyV2
  | VrfKeyV2 keyV2
  | OtherKey string keyV2

fun concrete :: "key \<Rightarrow> keyV2" where
  "concrete (CsaKeyV2 v) = v"
| "concrete (EthKeyV2 v) = v"
| "concrete (OcrKeyV2 v) = v"
| "concrete (P2pKeyV2 v) = v"
| "concrete (VrfKeyV2 v) = v"
| "concrete (OtherKey ty v) = v"

definition ID :: "key \<Rightarrow> string" where
  "ID k = ident (concrete k)"

text \<open>
  The key ring: one Go map per family, from the key's identifier to the key. The maps
  are allocated, as those of a decrypted ring are; the nil maps of a key manager that
  was never unlocked, on which a write panics, are not modelled.
\<close>

record keyRing =
  CSA :: "string \<rightharpoonup> keyV2"
  Eth :: "string \<rightharpoonup> keyV2"
  OCR :: "string \<rightharpoonup> keyV2"
  P2P :: "string \<rightharpoonup> keyV2"
  VRF :: "string \<rightharpoonup> keyV2"

definition emptyKeyRing :: keyRing where
  "emptyKeyRing = \<lparr>CSA = Map.empty, Eth = Map.empty, OCR = Map.empty,
                    P2P = Map.empty, VRF = Map.empty\<rparr>"

text \<open>
  \<^verbatim>\<open>getFieldNameForKey\<close>: the type switch of master.go, lines 271 to 285, in the source's
  case order, with the error of its last line.
\<close>

fun getFieldNameForKey :: "key \<Rightarrow> error + string" where
  "getFieldNameForKey (CsaKeyV2 v) = Inr ''CSA''"
| "getFieldNameForKey (EthKeyV2 v) = Inr ''Eth''"
| "getFieldNameForKey (OcrKeyV2 v) = Inr ''OCR''"
| "getFieldNameForKey (P2pKeyV2 v) = Inr ''P2P''"
| "getFieldNameForKey (VrfKeyV2 v) = Inr ''VRF''"
| "getFieldNameForKey (OtherKey ty v) = Inl (New (''unknown key type: '' @ ty))"

text \<open>
  \<^verbatim>\<open>keyRing.FieldByName(fieldName)\<close> followed by \<^verbatim>\<open>keyMap.SetMapIndex(id, value)\<close>:
  the map of the named field is updated at the identifier; the zero \<^verbatim>\<open>reflect.Value{}\<close>, here
  \<open>None\<close>, deletes the entry. A name that is no field of the struct gives the zero Value,
  on which \<^verbatim>\<open>SetMapIndex\<close> panics: the result \<open>None\<close>.
\<close>

definition SetMapIndex :: "string \<Rightarrow> string \<Rightarrow> keyV2 option \<Rightarrow> keyRing \<Rightarrow> keyRing option" where
  "SetMapIndex fieldName kid v kr =
     (if fieldName = ''CSA'' then Some (kr\<lparr>CSA := (CSA kr)(kid := v)\<rparr>)
      else if fieldName = ''Eth'' then Some (kr\<lparr>Eth := (Eth kr)(kid := v)\<rparr>)
      else if fieldName = ''OCR'' then Some (kr\<lparr>OCR := (OCR kr)(kid := v)\<rparr>)
      else if fieldName = ''P2P'' then Some (kr\<lparr>P2P := (P2P kr)(kid := v)\<rparr>)
      else if fieldName = ''VRF'' then Some (kr\<lparr>VRF := (VRF kr)(kid := v)\<rparr>)
      else None)"

definition FieldByName :: "string \<Rightarrow> keyRing \<Rightarrow> (string \<rightharpoonup> keyV2) option" where
  "FieldByName fieldName kr =
     (if fieldName = ''CSA'' then Some (CSA kr)
      else if fieldName = ''Eth'' then Some (Eth kr)
      else if fieldName = ''OCR'' then Some (OCR kr)
      else if fieldName = ''P2P'' then Some (P2P kr)
      else if fieldName = ''VRF'' then Some (VRF kr)
      else None)"

section \<open>Collaborators of the key manager\<close>

text \<open>
  Key states: the rows of per-key operational state of the Eth family, as the spec's
  persisted shape (b) has them.
\<close>

record State =
  keyID :: string
  evmChainID :: int
  isEnabled :: bool
  nextNonce :: int

type_synonym keyStates = "State list"

text \<open>
  A callback \<^verbatim>\<open>func(postgres.Queryer) error\<close> handed to \<^verbatim>\<open>save\<close>: the write of one
  Eth key's state row, or any other write, named.
\<close>

datatype callback = InsertKeyState State | OtherWrite string

type_synonym scryptParams = "nat \<times> nat"

text \<open>
  The store \<^verbatim>\<open>ksORM\<close> over a database \<open>'db\<close>, the encryption envelope over blobs
  \<open>'ekr\<close>, and the validation of key states are not part of master.go: the key manager
  is parameterised by them. A read returns a value or an error; the write returns its
  error and the database after it.
\<close>

record ('db, 'ekr) ksORM =
  getEncryptedKeyRing :: "'db \<Rightarrow> error + 'ekr"
  loadKeyStates :: "'db \<Rightarrow> error + keyStates"
  saveEncryptedKeyRing :: "'db \<Rightarrow> 'ekr \<Rightarrow> callback list \<Rightarrow> error option \<times> 'db"
  Decrypt :: "'ekr \<Rightarrow> string \<Rightarrow> error + keyRing"
  Encrypt :: "keyRing \<Rightarrow> string \<Rightarrow> scryptParams \<Rightarrow> error + 'ekr"
  validate :: "keyStates \<Rightarrow> keyRing \<Rightarrow> error option"

section \<open>The key manager (master.go, lines 169 to 269)\<close>

text \<open>
  The struct \<^verbatim>\<open>keyManager\<close>. The field \<open>orm\<close> holds the database the store works on.
  The lock and the logger have no part in a sequential run and are left out: every
  function below is one critical section.
\<close>

record 'db keyManager =
  orm :: 'db
  scryptParams :: scryptParams
  keyRing :: keyRing
  keyStates :: keyStates
  password :: string

definition isLocked :: "'db keyManager \<Rightarrow> bool" where
  "isLocked km = (length (password km) = 0)"

definition Unlock ::
  "('db, 'ekr) ksORM \<Rightarrow> string \<Rightarrow> 'db keyManager \<Rightarrow> error option \<times> 'db keyManager" where
  "Unlock c pw km =
     (if password km \<noteq> '''' then
        (if pw \<noteq> password km
         then (Some (New ''attempting to unlock keystore again with a different password''), km)
         else (None, km))
      else
        (case getEncryptedKeyRing c (orm km) of
           Inl err \<Rightarrow> (Some (Wrap err ''unable to get encrypted key ring''), km)
         | Inr ekr \<Rightarrow>
            (case Decrypt c ekr pw of
               Inl err \<Rightarrow> (Some (Wrap err ''unable to decrypt encrypted key ring''), km)
             | Inr kr \<Rightarrow>
                (let km1 = km\<lparr>keyRing := kr\<rparr> in
                 case loadKeyStates c (orm km1) of
                   Inl err \<Rightarrow> (Some (Wrap err ''unable to load key states''), km1)
                 | Inr ks \<Rightarrow>
                    (case validate c ks kr of
                       Some err \<Rightarrow> (Some err, km1)
                     | None \<Rightarrow> (None, km1\<lparr>keyStates := ks, password := pw\<rparr>))))))"

definition save ::
  "('db, 'ekr) ksORM \<Rightarrow> callback list \<Rightarrow> 'db keyManager \<Rightarrow> error option \<times> 'db keyManager" where
  "save c callbacks km =
     (case Encrypt c (keyRing km) (password km) (scryptParams km) of
        Inl err \<Rightarrow> (Some (Wrap err ''unable to encrypt keyRing''), km)
      | Inr ekb \<Rightarrow>
         (case saveEncryptedKeyRing c (orm km) ekb callbacks of
            (res, db) \<Rightarrow> (res, km\<lparr>orm := db\<rparr>)))"

definition safeAddKey ::
  "('db, 'ekr) ksORM \<Rightarrow> key \<Rightarrow> callback list \<Rightarrow> 'db keyManager
     \<Rightarrow> error option \<times> 'db keyManager" where
  "safeAddKey c unknownKey callbacks km =
     (case getFieldNameForKey unknownKey of
        Inl err \<Rightarrow> (Some err, km)
      | Inr fieldName \<Rightarrow>
         (case SetMapIndex fieldName (ID unknownKey) (Some (concrete unknownKey)) (keyRing km) of
            None \<Rightarrow> (Some (Panic ''reflect: call of reflect.Value.SetMapIndex on zero Value''), km)
          | Some kr1 \<Rightarrow>
             (case save c callbacks (km\<lparr>keyRing := kr1\<rparr>) of
                (Some err, km2) \<Rightarrow>
                  (case SetMapIndex fieldName (ID unknownKey) None (keyRing km2) of
                     None \<Rightarrow> (Some (Panic ''reflect: call of reflect.Value.SetMapIndex on zero Value''), km2)
                   | Some kr3 \<Rightarrow> (Some err, km2\<lparr>keyRing := kr3\<rparr>))
              | (None, km2) \<Rightarrow> (None, km2))))"

definition safeRemoveKey ::
  "('db, 'ekr) ksORM \<Rightarrow> key \<Rightarrow> callback list \<Rightarrow> 'db keyManager
     \<Rightarrow> error option \<times> 'db keyManager" where
  "safeRemoveKey c unknownKey callbacks km =
     (case getFieldNameForKey unknownKey of
        Inl err \<Rightarrow> (Some err, km)
      | Inr fieldName \<Rightarrow>
         (case SetMapIndex fieldName (ID unknownKey) None (keyRing km) of
            None \<Rightarrow> (Some (Panic ''reflect: call of reflect.Value.SetMapIndex on zero Value''), km)
          | Some kr1 \<Rightarrow>
             (case save c callbacks (km\<lparr>keyRing := kr1\<rparr>) of
                (Some err, km2) \<Rightarrow>
                  (case SetMapIndex fieldName (ID unknownKey) (Some (concrete unknownKey)) (keyRing km2) of
                     None \<Rightarrow> (Some (Panic ''reflect: call of reflect.Value.SetMapIndex on zero Value''), km2)
                   | Some kr3 \<Rightarrow> (Some err, km2\<lparr>keyRing := kr3\<rparr>))
              | (None, km2) \<Rightarrow> (None, km2))))"

text \<open>
  Modelled from the spec: \<^verbatim>\<open>keyStates.validate\<close> is not part of master.go. Every key
  state must reference a key id present in the Eth map of the ring, or validation fails;
  the rows are checked in order and the first dangling one is reported.
\<close>

fun validateStates :: "keyStates \<Rightarrow> keyRing \<Rightarrow> error option" where
  "validateStates [] kr = None"
| "validateStates (st # rest) kr =
     (if Eth kr (keyID st) = None
      then Some (New (''key record expected to exist for key state: '' @ keyID st))
      else validateStates rest kr)"

section \<open>Migration (master.go, lines 97 to 167)\<close>

text \<open>
  The legacy source: the results of the five \<^verbatim>\<open>GetV1KeysAsV2\<close> calls of the family
  facades, which are not part of master.go. The VRF one takes the VRF password, the Eth
  one the chain id and returns the keys and, by index, their states.
\<close>

record legacy =
  csaV1 :: "error + keyV2 list"
  ocrV1 :: "error + keyV2 list"
  p2pV1 :: "error + keyV2 list"
  vrfV1 :: "string \<Rightarrow> error + keyV2 list"
  ethV1 :: "int \<Rightarrow> error + keyV2 list \<times> State list"

text \<open>
  One of the four loops of lines 107 to 146 on the map of its family: a key whose id
  exists is skipped, any other is stored under its id.
\<close>

fun migrateKeys :: "keyV2 list \<Rightarrow> (string \<rightharpoonup> keyV2) \<Rightarrow> (string \<rightharpoonup> keyV2)" where
  "migrateKeys [] m = m"
| "migrateKeys (k # ks) m =
     (if m (ident k) \<noteq> None then migrateKeys ks m
      else migrateKeys ks (m(ident k \<mapsto> k)))"

text \<open>
  Lines 103 to 146: the four families in the order CSA, OCR, P2P, VRF. A failed fetch
  returns its error as it is, with the families before it merged in memory.
\<close>

definition migrateFamilies ::
  "legacy \<Rightarrow> string \<Rightarrow> 'db keyManager \<Rightarrow> error option \<times> 'db keyManager" where
  "migrateFamilies src vrfPssword km =
     (case csaV1 src of
        Inl err \<Rightarrow> (Some err, km)
      | Inr csaKeys \<Rightarrow>
         (let km1 = km\<lparr>keyRing := (keyRing km)\<lparr>CSA := migrateKeys csaKeys (CSA (keyRing km))\<rparr>\<rparr> in
          case ocrV1 src of
            Inl err \<Rightarrow> (Some err, km1)
          | Inr ocrKeys \<Rightarrow>
             (let km2 = km1\<lparr>keyRing := (keyRing km1)\<lparr>OCR := migrateKeys ocrKeys (OCR (keyRing km1))\<rparr>\<rparr> in
              case p2pV1 src of
                Inl err \<Rightarrow> (Some err, km2)
              | Inr p2pKeys \<Rightarrow>
                 (let km3 = km2\<lparr>keyRing := (keyRing km2)\<lparr>P2P := migrateKeys p2pKeys (P2P (keyRing km2))\<rparr>\<rparr> in
                  case vrfV1 src vrfPssword of
                    Inl err \<Rightarrow> (Some err, km3)
                  | Inr vrfKeys \<Rightarrow>
                     (None, km3\<lparr>keyRing := (keyRing km3)\<lparr>VRF := migrateKeys vrfKeys (VRF (keyRing km3))\<rparr>\<rparr>)))))"

text \<open>
  Modelled from the spec: \<^verbatim>\<open>eth.addEthKeyWithState\<close> is not part of master.go. The Eth
  facade adds the key with \<^verbatim>\<open>safeAddKey\<close> and passes the write of the key's state row
  as the extra write of that save.
\<close>

definition addEthKeyWithState ::
  "('db, 'ekr) ksORM \<Rightarrow> keyV2 \<Rightarrow> State \<Rightarrow> 'db keyManager \<Rightarrow> error option \<times> 'db keyManager" where
  "addEthKeyWithState c ethKey state km = safeAddKey c (EthKeyV2 ethKey) [InsertKeyState state] km"

text \<open>
  The loop of lines 154 to 165 from index \<open>idx\<close> on. \<^verbatim>\<open>states[idx]\<close> is read only for
  a key that is not skipped, and panics out of range.
\<close>

fun migrateEth ::
  "('db, 'ekr) ksORM \<Rightarrow> keyV2 list \<Rightarrow> State list \<Rightarrow> nat \<Rightarrow> 'db keyManager
     \<Rightarrow> error option \<times> 'db keyManager" where
  "migrateEth c [] states idx km = (None, km)"
| "migrateEth c (ethKey # rest) states idx km =
     (if Eth (keyRing km) (ident ethKey) \<noteq> None then migrateEth c rest states (Suc idx) km
      else if length states \<le> idx then (Some (Panic ''index out of range''), km)
      else
        (case addEthKeyWithState c ethKey (states ! idx) km of
           (Some err, km1) \<Rightarrow> (Some err, km1)
         | (None, km1) \<Rightarrow>
            (case save c [] km1 of
               (Some err, km2) \<Rightarrow> (Some err, km2)
             | (None, km2) \<Rightarrow> migrateEth c rest states (Suc idx) km2)))"

definition Migrate ::
  "('db, 'ekr) ksORM \<Rightarrow> legacy \<Rightarrow> string \<Rightarrow> int \<Rightarrow> 'db keyManager
     \<Rightarrow> error option \<times> 'db keyManager" where
  "Migrate c src vrfPssword chainID km =
     (if isLocked km then (Some ErrLocked, km)
      else
        (case migrateFamilies src vrfPssword km of
           (Some err, km4) \<Rightarrow> (Some err, km4)
         | (None, km4) \<Rightarrow>
            (case save c [] km4 of
               (Some err, km5) \<Rightarrow> (Some err, km5)
             | (None, km5) \<Rightarrow>
                (case ethV1 src chainID of
                   Inl err \<Rightarrow> (Some err, km5)
                 | Inr (ethKeys, states) \<Rightarrow> migrateEth c ethKeys states 0 km5))))"

section \<open>The transactional executor (sqlx.go, lines 47 to 63)\<close>

text \<open>
  A \<^verbatim>\<open>Queryer\<close> is an open transaction \<^verbatim>\<open>*sqlx.Tx\<close>, a connection \<^verbatim>\<open>*sqlx.DB\<close>, or a
  value of any other type that implements the interface. What happens on the database
  is a trace of events, which the function run by the executor extends as it likes.
\<close>

datatype queryer = Tx nat | DB nat | OtherQueryer string

datatype event = Begin nat | Commit nat | Rollback nat | Exec queryer string

type_synonym trace = "event list"

text \<open>
  Modelled from the spec: \<^verbatim>\<open>sqlxTransactionQ\<close> is not part of sqlx.go. A new transaction
  is opened on the connection, the function runs against it, and it is committed on
  success and rolled back on error.
\<close>

definition sqlxTransactionQ ::
  "nat \<Rightarrow> (queryer \<Rightarrow> trace \<Rightarrow> error option \<times> trace) \<Rightarrow> trace \<Rightarrow> error option \<times> trace" where
  "sqlxTransactionQ db fc tr =
     (case fc (Tx db) (tr @ [Begin db]) of
        (None, tr1) \<Rightarrow> (None, tr1 @ [Commit db])
      | (Some err, tr1) \<Rightarrow> (Some err, tr1 @ [Rollback db]))"

text \<open>
  \<^verbatim>\<open>SqlxTransaction\<close>, with the package variable
  \<^verbatim>\<open>AllowUnknownQueryerTypeInTransaction\<close> as its first argument.
\<close>

definition SqlxTransaction ::
  "bool \<Rightarrow> queryer \<Rightarrow> (queryer \<Rightarrow> trace \<Rightarrow> error option \<times> trace) \<Rightarrow> trace
     \<Rightarrow> error option \<times> trace" where
  "SqlxTransaction AllowUnknownQueryerTypeInTransaction q fc tr =
     (case q of
        Tx t \<Rightarrow> fc (Tx t) tr
      | DB db \<Rightarrow> sqlxTransactionQ db fc tr
      | OtherQueryer ty \<Rightarrow>
         (if AllowUnknownQueryerTypeInTransaction then fc q tr
          else (Some (New ''invalid db type''), tr)))"

section \<open>A store in memory\<close>

text \<open>
  A small store to run the key manager on: the database holds the one blob, the state
  rows and a switch that makes every write fail; a blob is the ring beside the password
  that locks it. A write that fails changes nothing.
\<close>

record memDB =
  blob :: "(string \<times> keyRing) option"
  stateRows :: "State list"
  failing :: bool

fun stateWrites :: "callback list \<Rightarrow> State list" where
  "stateWrites [] = []"
| "stateWrites (InsertKeyState st # cbs) = st # stateWrites cbs"
| "stateWrites (OtherWrite w # cbs) = stateWrites cbs"

definition memORM :: "(memDB, string \<times> keyRing) ksORM" where
  "memORM =
     \<lparr>getEncryptedKeyRing =
        (\<lambda>db. case blob db of None \<Rightarrow> Inl (New ''sql: no rows in result set'') | Some ekr \<Rightarrow> Inr ekr),
      loadKeyStates = (\<lambda>db. Inr (stateRows db)),
      saveEncryptedKeyRing =
        (\<lambda>db ekr cbs. if failing db then (Some (New ''database is down''), db)
                       else (None, db\<lparr>blob := Some ekr, stateRows := stateRows db @ stateWrites cbs\<rparr>)),
      Decrypt = (\<lambda>ekr pw. if fst ekr = pw then Inr (snd ekr) else Inl (New ''could not decrypt data'')),
      Encrypt = (\<lambda>kr pw params. Inr (pw, kr)),
      validate = validateStates\<rparr>"

text \<open>
  A store that records every call of \<^verbatim>\<open>saveEncryptedKeyRing\<close>, the blob and the
  callbacks, beside the database of the store it wraps, as a mock of the store does.
\<close>

definition recording ::
  "('db, 'ekr) ksORM \<Rightarrow> ('db \<times> ('ekr \<times> callback list) list, 'ekr) ksORM" where
  "recording c =
     \<lparr>getEncryptedKeyRing = (\<lambda>d. getEncryptedKeyRing c (fst d)),
      loadKeyStates = (\<lambda>d. loadKeyStates c (fst d)),
      saveEncryptedKeyRing =
        (\<lambda>d ekr cbs. case saveEncryptedKeyRing c (fst d) ekr cbs of
                        (res, db) \<Rightarrow> (res, (db, snd d @ [(ekr, cbs)]))),
      Decrypt = Decrypt c,
      Encrypt = Encrypt c,
      validate = validate c\<rparr>"

section \<open>Sample data\<close>

text \<open>Two keys, their state rows, a ring that holds the first key, and key managers on the store in memory.\<close>

definition keyA :: keyV2 where "keyA = KeyV2 ''0xA'' ''secret-a''"
definition keyB :: keyV2 where "keyB = KeyV2 ''0xB'' ''secret-b''"
definition stateA :: State where
  "stateA = \<lparr>keyID = ''0xA'', evmChainID = 1, isEnabled = True, nextNonce = 0\<rparr>"
definition stateB :: State where
  "stateB = \<lparr>keyID = ''0xB'', evmChainID = 1, isEnabled = True, nextNonce = 0\<rparr>"
definition ringA :: keyRing where
  "ringA = emptyKeyRing\<lparr>Eth := [''0xA'' \<mapsto> keyA]\<rparr>"
definition dbA :: memDB where
  "dbA = \<lparr>blob = Some (''pw1'', ringA), stateRows = [stateA], failing = False\<rparr>"
definition kmLocked :: "memDB \<Rightarrow> memDB keyManager" where
  "kmLocked db = \<lparr>orm = db, scryptParams = (2, 1), keyRing = emptyKeyRing, keyStates = [], password = ''''\<rparr>"
definition kmOpen :: "memDB \<Rightarrow> memDB keyManager" where
  "kmOpen db = \<lparr>orm = db, scryptParams = (2, 1), keyRing = ringA, keyStates = [stateA], password = ''pw1''\<rparr>"

definition dbDangling :: memDB where
  "dbDangling = \<lparr>blob = Some (''pw1'', ringA), stateRows = [stateA, stateB], failing = False\<rparr>"
definition dbEmpty :: memDB where
  "dbEmpty = \<lparr>blob = None, stateRows = [], failing = False\<rparr>"
definition dbDown :: memDB where
  "dbDown = \<lparr>blob = Some (''pw1'', ringA), stateRows = [stateA], failing = True\<rparr>"

definition keyA2 :: keyV2 where "keyA2 = KeyV2 ''0xA'' ''secret-a-rotated''"

text \<open>Two functions to run in a transaction: one writes a row, one fails before it writes.\<close>

definition insertRow :: "queryer \<Rightarrow> trace \<Rightarrow> error option \<times> trace" where
  "insertRow q tr = (None, tr @ [Exec q ''INSERT INTO encrypted_key_rings''])"

definition failingWrite :: "queryer \<Rightarrow> trace \<Rightarrow> error option \<times> trace" where
  "failingWrite q tr = (Some (New ''constraint violated''), tr)"

text \<open>
  Modelled from the spec: a MigrationError wraps the failure of a family. An error is one
  for a given failure when it is made from that failure by \<^verbatim>\<open>errors.Wrap\<close>, the message
  naming the family.
\<close>

definition isMigrationError :: "error \<Rightarrow> error \<Rightarrow> bool" where
  "isMigrationError cause err = (case err of Wrap e msg \<Rightarrow> e = cause | _ \<Rightarrow> False)"

text \<open>A CSA key and two legacy sources, the second with a failing OCR fetch.\<close>

definition keyC :: keyV2 where "keyC = KeyV2 ''csa-1'' ''secret-c''"

definition legacyA :: legacy where
  "legacyA = \<lparr>csaV1 = Inr [keyC], ocrV1 = Inr [], p2pV1 = Inr [], vrfV1 = (\<lambda>pw. Inr []),
              ethV1 = (\<lambda>chain. Inr ([keyA, keyB], [stateA, stateB]))\<rparr>"

definition legacyOcrDown :: legacy where
  "legacyOcrDown = \<lparr>csaV1 = Inr [keyC], ocrV1 = Inl (New ''connection refused''), p2pV1 = Inr [],
                    vrfV1 = (\<lambda>pw. Inr []),
                    ethV1 = (\<lambda>chain. Inr ([keyA, keyB], [stateA, stateB]))\<rparr>"

text \<open>
  The legacy Eth keys that a run adds, each with its state, in the order of the source:
  the keys whose id the Eth map does not hold when their turn comes.
\<close>

fun freshEth :: "(keyV2 \<times> State) list \<Rightarrow> (string \<rightharpoonup> keyV2) \<Rightarrow> (keyV2 \<times> State) list" where
  "freshEth [] m = []"
| "freshEth ((k, st) # rest) m =
     (if m (ident k) \<noteq> None then freshEth rest m
      else (k, st) # freshEth rest (m(ident k \<mapsto> k)))"

text \<open>An unlocked key manager on the recording store, nothing recorded yet.\<close>

definition kmRec :: "(memDB \<times> ((string \<times> keyRing) \<times> callback list) list) keyManager" where
  "kmRec = \<lparr>orm = (dbA, []), scryptParams = (2, 1), keyRing = ringA, keyStates = [stateA],
            password = ''pw1''\<rparr>"

text \<open>The store in memory with a state table that cannot be read.\<close>

definition brokenStatesORM :: "(memDB, string \<times> keyRing) ksORM" where
  "brokenStatesORM = memORM\<lparr>loadKeyStates := (\<lambda>db. Inl (New ''connection reset''))\<rparr>"

text \<open>
  A store that takes a number of saves and is down from then on, beside the database of
  the store it wraps.
\<close>

definition limited :: "('db, 'ekr) ksORM \<Rightarrow> ('db \<times> nat, 'ekr) ksORM" where
  "limited c =
     \<lparr>getEncryptedKeyRing = (\<lambda>d. getEncryptedKeyRing c (fst d)),
      loadKeyStates = (\<lambda>d. loadKeyStates c (fst d)),
      saveEncryptedKeyRing =
        (\<lambda>d ekr cbs. if snd d = 0 then (Some (New ''database is down''), d)
                       else (case saveEncryptedKeyRing c (fst d) ekr cbs of
                               (res, db) \<Rightarrow> (res, (db, snd d - 1)))),
      Decrypt = Decrypt c,
      Encrypt = Encrypt c,
      validate = validate c\<rparr>"

text \<open>An unlocked key manager on a store that takes three saves.\<close>

definition kmLimited :: "(memDB \<times> nat) keyManager" where
  "kmLimited = \<lparr>orm = (dbA, 3), scryptParams = (2, 1), keyRing = ringA, keyStates = [stateA],
                password = ''pw1''\<rparr>"

text \<open>An OCR key, a VRF key and a legacy source whose P2P fetch fails.\<close>

definition keyO :: keyV2 where "keyO = KeyV2 ''ocr-1'' ''secret-o''"

definition keyV :: keyV2 where "keyV = KeyV2 ''vrf-1'' ''secret-v''"

definition legacyP2pDown :: legacy where
  "legacyP2pDown = \<lparr>csaV1 = Inr [keyC], ocrV1 = Inr [keyO], p2pV1 = Inl (New ''connection refused''),
                    vrfV1 = (\<lambda>pw. Inr [keyV]),
                    ethV1 = (\<lambda>chain. Inr ([keyA, keyB], [stateA, stateB]))\<rparr>"

section \<open>Auxiliary facts\<close>

lemma save_fields:
  "keyRing (snd (save c cbs km)) = keyRing km"
  "password (snd (save c cbs km)) = password km"
  "keyStates (snd (save c cbs km)) = keyStates km"
  "scryptParams (snd (save c cbs km)) = scryptParams km"
  by (simp_all add: save_def split: sum.splits prod.splits)

lemma ringA_not_empty: "ringA \<noteq> emptyKeyRing"
proof
  assume "ringA = emptyKeyRing"
  then have "Eth ringA ''0xA'' = Eth emptyKeyRing ''0xA''" by simp
  then show False by (simp add: ringA_def emptyKeyRing_def)
qed

lemma fieldName_cases:
  assumes "getFieldNameForKey k = Inr f"
  shows "f = ''CSA'' \<or> f = ''Eth'' \<or> f = ''OCR'' \<or> f = ''P2P'' \<or> f = ''VRF''"
  using assms by (cases k) auto

lemma SetMapIndex_names:
  "SetMapIndex ''CSA'' i v kr = Some (kr\<lparr>CSA := (CSA kr)(i := v)\<rparr>)"
  "SetMapIndex ''Eth'' i v kr = Some (kr\<lparr>Eth := (Eth kr)(i := v)\<rparr>)"
  "SetMapIndex ''OCR'' i v kr = Some (kr\<lparr>OCR := (OCR kr)(i := v)\<rparr>)"
  "SetMapIndex ''P2P'' i v kr = Some (kr\<lparr>P2P := (P2P kr)(i := v)\<rparr>)"
  "SetMapIndex ''VRF'' i v kr = Some (kr\<lparr>VRF := (VRF kr)(i := v)\<rparr>)"
  by (simp_all add: SetMapIndex_def)

lemma FieldByName_names:
  "FieldByName ''CSA'' kr = Some (CSA kr)"
  "FieldByName ''Eth'' kr = Some (Eth kr)"
  "FieldByName ''OCR'' kr = Some (OCR kr)"
  "FieldByName ''P2P'' kr = Some (P2P kr)"
  "FieldByName ''VRF'' kr = Some (VRF kr)"
  by (simp_all add: FieldByName_def)

lemma SetMapIndex_known:
  assumes "getFieldNameForKey k = Inr f"
  shows "\<exists>kr1. SetMapIndex f i v kr = Some kr1"
  using fieldName_cases [OF assms] by (auto simp: SetMapIndex_names)

lemma SetMapIndex_undo:
  assumes f: "getFieldNameForKey k = Inr f" and m: "FieldByName f kr = Some m"
    and s: "SetMapIndex f i v kr = Some kr1"
  shows "SetMapIndex f i (m i) kr1 = Some kr"
proof -
  from fieldName_cases [OF f]
  consider "f = ''CSA''" | "f = ''Eth''" | "f = ''OCR''" | "f = ''P2P''" | "f = ''VRF''" by blast
  then show ?thesis
  proof cases
    case 1
    from m 1 have mm: "m = CSA kr" by (simp add: FieldByName_names)
    from s 1 have kk: "kr1 = kr\<lparr>CSA := (CSA kr)(i := v)\<rparr>" by (simp add: SetMapIndex_names)
    show ?thesis by (simp add: 1 mm kk SetMapIndex_names)
  next
    case 2
    from m 2 have mm: "m = Eth kr" by (simp add: FieldByName_names)
    from s 2 have kk: "kr1 = kr\<lparr>Eth := (Eth kr)(i := v)\<rparr>" by (simp add: SetMapIndex_names)
    show ?thesis by (simp add: 2 mm kk SetMapIndex_names)
  next
    case 3
    from m 3 have mm: "m = OCR kr" by (simp add: FieldByName_names)
    from s 3 have kk: "kr1 = kr\<lparr>OCR := (OCR kr)(i := v)\<rparr>" by (simp add: SetMapIndex_names)
    show ?thesis by (simp add: 3 mm kk SetMapIndex_names)
  next
    case 4
    from m 4 have mm: "m = P2P kr" by (simp add: FieldByName_names)
    from s 4 have kk: "kr1 = kr\<lparr>P2P := (P2P kr)(i := v)\<rparr>" by (simp add: SetMapIndex_names)
    show ?thesis by (simp add: 4 mm kk SetMapIndex_names)
  next
    case 5
    from m 5 have mm: "m = VRF kr" by (simp add: FieldByName_names)
    from s 5 have kk: "kr1 = kr\<lparr>VRF := (VRF kr)(i := v)\<rparr>" by (simp add: SetMapIndex_names)
    show ?thesis by (simp add: 5 mm kk SetMapIndex_names)
  qed
qed

lemma safeAddKey_unfold:
  assumes "getFieldNameForKey k = Inr f" and "SetMapIndex f (ID k) (Some (concrete k)) (keyRing km) = Some kr1"
    and "SetMapIndex f (ID k) None kr1 = Some kr3"
  shows "safeAddKey c k cbs km =
           (case save c cbs (km\<lparr>keyRing := kr1\<rparr>) of
              (Some err, km2) \<Rightarrow> (Some err, km2\<lparr>keyRing := kr3\<rparr>)
            | (None, km2) \<Rightarrow> (None, km2))"
proof -
  obtain res km2 where s: "save c cbs (km\<lparr>keyRing := kr1\<rparr>) = (res, km2)" by (cases "save c cbs (km\<lparr>keyRing := kr1\<rparr>)")
  have "keyRing km2 = kr1" using save_fields(1) [of c cbs "km\<lparr>keyRing := kr1\<rparr>"] s by simp
  then show ?thesis using assms s by (simp add: safeAddKey_def split: option.splits)
qed

lemma safeRemoveKey_unfold:
  assumes "getFieldNameForKey k = Inr f" and "SetMapIndex f (ID k) None (keyRing km) = Some kr1"
    and "SetMapIndex f (ID k) (Some (concrete k)) kr1 = Some kr3"
  shows "safeRemoveKey c k cbs km =
           (case save c cbs (km\<lparr>keyRing := kr1\<rparr>) of
              (Some err, km2) \<Rightarrow> (Some err, km2\<lparr>keyRing := kr3\<rparr>)
            | (None, km2) \<Rightarrow> (None, km2))"
proof -
  obtain res km2 where s: "save c cbs (km\<lparr>keyRing := kr1\<rparr>) = (res, km2)" by (cases "save c cbs (km\<lparr>keyRing := kr1\<rparr>)")
  have "keyRing km2 = kr1" using save_fields(1) [of c cbs "km\<lparr>keyRing := kr1\<rparr>"] s by simp
  then show ?thesis using assms s by (simp add: safeRemoveKey_def split: option.splits)
qed

lemma kmOpen_simps:
  "keyRing (kmOpen db) = ringA" "orm (kmOpen db) = db" "password (kmOpen db) = ''pw1''"
  "scryptParams (kmOpen db) = (2, 1)" "keyStates (kmOpen db) = [stateA]"
  by (simp_all add: kmOpen_def)

lemma save_memORM_down:
  "failing (orm km) \<Longrightarrow> save memORM cbs km = (Some (New ''database is down''), km)"
  by (simp add: save_def memORM_def)

lemma save_memORM_up:
  "\<not> failing (orm km) \<Longrightarrow> save memORM cbs km =
     (None, km\<lparr>orm := (orm km)\<lparr>blob := Some (password km, keyRing km),
                                 stateRows := stateRows (orm km) @ stateWrites cbs\<rparr>\<rparr>)"
  by (simp add: save_def memORM_def)

lemma SetMapIndex_twice:
  "SetMapIndex f i v kr = Some kr1 \<Longrightarrow> SetMapIndex f i w kr1 = SetMapIndex f i w kr"
  by (auto simp: SetMapIndex_def split: if_splits)

lemma SetMapIndex_FieldByName:
  assumes f: "getFieldNameForKey k = Inr f" and m: "FieldByName f kr = Some m"
    and s: "SetMapIndex f i v kr = Some kr1"
  shows "FieldByName f kr1 = Some (m(i := v))"
proof -
  from fieldName_cases [OF f]
  consider "f = ''CSA''" | "f = ''Eth''" | "f = ''OCR''" | "f = ''P2P''" | "f = ''VRF''" by blast
  then show ?thesis
    using m s by cases (auto simp: FieldByName_names SetMapIndex_names)
qed

lemma safeAddKey_ring:
  assumes f: "getFieldNameForKey k = Inr f"
  shows "SetMapIndex f (ID k) (if fst (safeAddKey c k cbs km) = None then Some (concrete k) else None)
           (keyRing km) = Some (keyRing (snd (safeAddKey c k cbs km)))"
proof -
  obtain kr1 where k1: "SetMapIndex f (ID k) (Some (concrete k)) (keyRing km) = Some kr1"
    using SetMapIndex_known [OF f] by blast
  obtain kr3 where k3: "SetMapIndex f (ID k) None kr1 = Some kr3"
    using SetMapIndex_known [OF f] by blast
  have k3': "SetMapIndex f (ID k) None (keyRing km) = Some kr3"
    using SetMapIndex_twice [OF k1, of None] k3 by simp
  obtain res km2 where s: "save c cbs (km\<lparr>keyRing := kr1\<rparr>) = (res, km2)"
    by (cases "save c cbs (km\<lparr>keyRing := kr1\<rparr>)")
  have r: "keyRing km2 = kr1" using save_fields(1) [of c cbs "km\<lparr>keyRing := kr1\<rparr>"] s by simp
  show ?thesis
    using safeAddKey_unfold [OF f k1 k3, of c cbs] s r k1 k3' by (cases res) simp_all
qed

lemma safeRemoveKey_ring:
  assumes f: "getFieldNameForKey k = Inr f"
  shows "SetMapIndex f (ID k) (if fst (safeRemoveKey c k cbs km) = None then None else Some (concrete k))
           (keyRing km) = Some (keyRing (snd (safeRemoveKey c k cbs km)))"
proof -
  obtain kr1 where k1: "SetMapIndex f (ID k) None (keyRing km) = Some kr1"
    using SetMapIndex_known [OF f] by blast
  obtain kr3 where k3: "SetMapIndex f (ID k) (Some (concrete k)) kr1 = Some kr3"
    using SetMapIndex_known [OF f] by blast
  have k3': "SetMapIndex f (ID k) (Some (concrete k)) (keyRing km) = Some kr3"
    using SetMapIndex_twice [OF k1, of "Some (concrete k)"] k3 by simp
  obtain res km2 where s: "save c cbs (km\<lparr>keyRing := kr1\<rparr>) = (res, km2)"
    by (cases "save c cbs (km\<lparr>keyRing := kr1\<rparr>)")
  have r: "keyRing km2 = kr1" using save_fields(1) [of c cbs "km\<lparr>keyRing := kr1\<rparr>"] s by simp
  show ?thesis
    using safeRemoveKey_unfold [OF f k1 k3, of c cbs] s r k1 k3' by (cases res) simp_all
qed

lemma safeAddKey_other_fields:
  "password (snd (safeAddKey c k cbs km)) = password km"
  "keyStates (snd (safeAddKey c k cbs km)) = keyStates km"
  "scryptParams (snd (safeAddKey c k cbs km)) = scryptParams km"
proof -
  have "password (snd (safeAddKey c k cbs km)) = password km \<and>
        keyStates (snd (safeAddKey c k cbs km)) = keyStates km \<and>
        scryptParams (snd (safeAddKey c k cbs km)) = scryptParams km"
  proof (cases "getFieldNameForKey k")
    case (Inl e)
    then show ?thesis by (simp add: safeAddKey_def)
  next
    case (Inr f)
    obtain kr1 where k1: "SetMapIndex f (ID k) (Some (concrete k)) (keyRing km) = Some kr1"
      using SetMapIndex_known [OF Inr] by blast
    obtain kr3 where k3: "SetMapIndex f (ID k) None kr1 = Some kr3"
      using SetMapIndex_known [OF Inr] by blast
    obtain res km2 where s: "save c cbs (km\<lparr>keyRing := kr1\<rparr>) = (res, km2)"
      by (cases "save c cbs (km\<lparr>keyRing := kr1\<rparr>)")
    have r: "password km2 = password km" "keyStates km2 = keyStates km" "scryptParams km2 = scryptParams km"
      using save_fields(2,3,4) [of c cbs "km\<lparr>keyRing := kr1\<rparr>"] s by simp_all
    show ?thesis
      using safeAddKey_unfold [OF Inr k1 k3, of c cbs] s r by (cases res) simp_all
  qed
  then show "password (snd (safeAddKey c k cbs km)) = password km"
    "keyStates (snd (safeAddKey c k cbs km)) = keyStates km"
    "scryptParams (snd (safeAddKey c k cbs km)) = scryptParams km" by simp_all
qed

lemma safeRemoveKey_other_fields:
  "password (snd (safeRemoveKey c k cbs km)) = password km"
  "keyStates (snd (safeRemoveKey c k cbs km)) = keyStates km"
  "scryptParams (snd (safeRemoveKey c k cbs km)) = scryptParams km"
proof -
  have "password (snd (safeRemoveKey c k cbs km)) = password km \<and>
        keyStates (snd (safeRemoveKey c k cbs km)) = keyStates km \<and>
        scryptParams (snd (safeRemoveKey c k cbs km)) = scryptParams km"
  proof (cases "getFieldNameForKey k")
    case (Inl e)
    then show ?thesis by (simp add: safeRemoveKey_def)
  next
    case (Inr f)
    obtain kr1 where k1: "SetMapIndex f (ID k) None (keyRing km) = Some kr1"
      using SetMapIndex_known [OF Inr] by blast
    obtain kr3 where k3: "SetMapIndex f (ID k) (Some (concrete k)) kr1 = Some kr3"
      using SetMapIndex_known [OF Inr] by blast
    obtain res km2 where s: "save c cbs (km\<lparr>keyRing := kr1\<rparr>) = (res, km2)"
      by (cases "save c cbs (km\<lparr>keyRing := kr1\<rparr>)")
    have r: "password km2 = password km" "keyStates km2 = keyStates km" "scryptParams km2 = scryptParams km"
      using save_fields(2,3,4) [of c cbs "km\<lparr>keyRing := kr1\<rparr>"] s by simp_all
    show ?thesis
      using safeRemoveKey_unfold [OF Inr k1 k3, of c cbs] s r by (cases res) simp_all
  qed
  then show "password (snd (safeRemoveKey c k cbs km)) = password km"
    "keyStates (snd (safeRemoveKey c k cbs km)) = keyStates km"
    "scryptParams (snd (safeRemoveKey c k cbs km)) = scryptParams km" by simp_all
qed

lemma migrateFamilies_fields:
  "password (snd (migrateFamilies src pw km)) = password km"
  "orm (snd (migrateFamilies src pw km)) = orm km"
  "keyStates (snd (migrateFamilies src pw km)) = keyStates km"
  "scryptParams (snd (migrateFamilies src pw km)) = scryptParams km"
  "Eth (keyRing (snd (migrateFamilies src pw km))) = Eth (keyRing km)"
  by (simp_all add: migrateFamilies_def Let_def split: sum.splits)

lemma migrateFamilies_csa:
  "csaV1 src = Inl e \<Longrightarrow> migrateFamilies src pw km = (Some e, km)"
  by (simp add: migrateFamilies_def)

lemma migrateFamilies_ocr:
  "csaV1 src = Inr ks1 \<Longrightarrow> ocrV1 src = Inl e \<Longrightarrow>
   migrateFamilies src pw km =
     (Some e, km\<lparr>keyRing := (keyRing km)\<lparr>CSA := migrateKeys ks1 (CSA (keyRing km))\<rparr>\<rparr>)"
  by (simp add: migrateFamilies_def)

lemma migrateFamilies_p2p:
  "csaV1 src = Inr ks1 \<Longrightarrow> ocrV1 src = Inr ks2 \<Longrightarrow> p2pV1 src = Inl e \<Longrightarrow>
   migrateFamilies src pw km =
     (Some e, km\<lparr>keyRing := (keyRing km)\<lparr>CSA := migrateKeys ks1 (CSA (keyRing km)),
                                          OCR := migrateKeys ks2 (OCR (keyRing km))\<rparr>\<rparr>)"
  by (simp add: migrateFamilies_def)

lemma migrateFamilies_vrf:
  "csaV1 src = Inr ks1 \<Longrightarrow> ocrV1 src = Inr ks2 \<Longrightarrow> p2pV1 src = Inr ks3 \<Longrightarrow>
   vrfV1 src pw = Inl e \<Longrightarrow>
   migrateFamilies src pw km =
     (Some e, km\<lparr>keyRing := (keyRing km)\<lparr>CSA := migrateKeys ks1 (CSA (keyRing km)),
                                          OCR := migrateKeys ks2 (OCR (keyRing km)),
                                          P2P := migrateKeys ks3 (P2P (keyRing km))\<rparr>\<rparr>)"
  by (simp add: migrateFamilies_def)

lemma migrateFamilies_ok:
  "csaV1 src = Inr ks1 \<Longrightarrow> ocrV1 src = Inr ks2 \<Longrightarrow> p2pV1 src = Inr ks3 \<Longrightarrow>
   vrfV1 src pw = Inr ks4 \<Longrightarrow>
   migrateFamilies src pw km =
     (None, km\<lparr>keyRing := (keyRing km)\<lparr>CSA := migrateKeys ks1 (CSA (keyRing km)),
                                       OCR := migrateKeys ks2 (OCR (keyRing km)),
                                       P2P := migrateKeys ks3 (P2P (keyRing km)),
                                       VRF := migrateKeys ks4 (VRF (keyRing km))\<rparr>\<rparr>)"
  by (simp add: migrateFamilies_def)

lemma migrateFamilies_None:
  "migrateFamilies src pw km = (None, km4) \<Longrightarrow>
   \<exists>ks1 ks2 ks3 ks4. csaV1 src = Inr ks1 \<and> ocrV1 src = Inr ks2 \<and> p2pV1 src = Inr ks3 \<and>
      vrfV1 src pw = Inr ks4"
  by (auto simp: migrateFamilies_def Let_def split: sum.splits)

lemma kmOpen_unlocked: "\<not> isLocked (kmOpen db)"
  by (simp add: isLocked_def kmOpen_def)

lemma migrateKeys_keeps: "m i \<noteq> None \<Longrightarrow> migrateKeys ks m i = m i"
  by (induction ks arbitrary: m) auto

lemma migrateKeys_present: "k \<in> set ks \<Longrightarrow> migrateKeys ks m (ident k) \<noteq> None"
proof (induction ks arbitrary: m)
  case Nil
  then show ?case by simp
next
  case (Cons a ks)
  show ?case
  proof (cases "k = a")
    case True
    then show ?thesis using migrateKeys_keeps [of _ "ident a" ks] by auto
  next
    case False
    with Cons show ?thesis by auto
  qed
qed

lemma migrateKeys_skip: "(\<And>k. k \<in> set ks \<Longrightarrow> m (ident k) \<noteq> None) \<Longrightarrow> migrateKeys ks m = m"
  by (induction ks arbitrary: m) auto

lemma migrateKeys_again: "migrateKeys ks (migrateKeys ks m) = migrateKeys ks m"
  by (rule migrateKeys_skip) (rule migrateKeys_present)

lemma migrateKeys_map_add:
  "migrateKeys ks m = map_of (map (\<lambda>k. (ident k, k)) ks) ++ m"
proof (induction ks arbitrary: m)
  case Nil
  then show ?case by simp
next
  case (Cons a ks)
  show ?case
  proof (cases "m (ident a)")
    case None
    have "migrateKeys (a # ks) m = migrateKeys ks (m(ident a \<mapsto> a))"
      using None by simp
    also have "\<dots> = map_of (map (\<lambda>k. (ident k, k)) ks) ++ m(ident a \<mapsto> a)"
      by (rule Cons)
    also have "\<dots> = map_of (map (\<lambda>k. (ident k, k)) (a # ks)) ++ m"
      using None by (simp add: map_add_upd_left domIff)
    finally show ?thesis .
  next
    case (Some v)
    have "migrateKeys (a # ks) m = migrateKeys ks m"
      using Some by simp
    also have "\<dots> = map_of (map (\<lambda>k. (ident k, k)) ks) ++ m"
      by (rule Cons)
    also have "\<dots> = map_of (map (\<lambda>k. (ident k, k)) (a # ks)) ++ m"
      using Some by (intro ext) (simp add: map_add_def split: option.splits)
    finally show ?thesis .
  qed
qed

lemma addEthKeyWithState_ok:
  assumes "addEthKeyWithState c k st km = (None, km1)"
  shows "keyRing km1 = (keyRing km)\<lparr>Eth := (Eth (keyRing km))(ident k \<mapsto> k)\<rparr>"
    and "password km1 = password km" and "keyStates km1 = keyStates km"
    and "scryptParams km1 = scryptParams km"
proof -
  have run: "safeAddKey c (EthKeyV2 k) [InsertKeyState st] km = (None, km1)"
    using assms by (simp add: addEthKeyWithState_def)
  show "keyRing km1 = (keyRing km)\<lparr>Eth := (Eth (keyRing km))(ident k \<mapsto> k)\<rparr>"
    using safeAddKey_ring [of "EthKeyV2 k" "''Eth''" c "[InsertKeyState st]" km] run
    by (simp add: SetMapIndex_names ID_def)
  show "password km1 = password km" "keyStates km1 = keyStates km"
    "scryptParams km1 = scryptParams km"
    using safeAddKey_other_fields [of c "EthKeyV2 k" "[InsertKeyState st]" km] run by simp_all
qed

lemma save_ok:
  assumes "save c cbs km = (None, km1)"
  shows "keyRing km1 = keyRing km" and "password km1 = password km"
    and "keyStates km1 = keyStates km" and "scryptParams km1 = scryptParams km"
  using save_fields [of c cbs km] assms by simp_all

lemma migrateEth_skip:
  "(\<And>k. k \<in> set ks \<Longrightarrow> Eth (keyRing km) (ident k) \<noteq> None) \<Longrightarrow>
   migrateEth c ks states idx km = (None, km)"
  by (induction ks arbitrary: idx) auto

lemma migrateEth_ok:
  "migrateEth c ks states idx km = (None, km') \<Longrightarrow>
   Eth (keyRing km') = migrateKeys ks (Eth (keyRing km)) \<and>
   CSA (keyRing km') = CSA (keyRing km) \<and> OCR (keyRing km') = OCR (keyRing km) \<and>
   P2P (keyRing km') = P2P (keyRing km) \<and> VRF (keyRing km') = VRF (keyRing km) \<and>
   password km' = password km \<and> keyStates km' = keyStates km \<and>
   scryptParams km' = scryptParams km"
proof (induction ks arbitrary: idx km)
  case Nil
  then show ?case by simp
next
  case (Cons k ks)
  show ?case
  proof (cases "Eth (keyRing km) (ident k) \<noteq> None")
    case True
    with Cons.prems have "migrateEth c ks states (Suc idx) km = (None, km')" by simp
    from Cons.IH [OF this] True show ?thesis by simp
  next
    case False
    with Cons.prems have inr: "idx < length states"
      by (auto split: if_splits)
    obtain r1 km1 where a: "addEthKeyWithState c k (states ! idx) km = (r1, km1)"
      by (cases "addEthKeyWithState c k (states ! idx) km")
    have r1: "r1 = None" using Cons.prems False inr a by (cases r1) auto
    obtain r2 km2 where s: "save c [] km1 = (r2, km2)" by (cases "save c [] km1")
    have r2: "r2 = None" using Cons.prems False inr a r1 s by (cases r2) auto
    have rest: "migrateEth c ks states (Suc idx) km2 = (None, km')"
      using Cons.prems False inr a r1 s r2 by simp
    note A = addEthKeyWithState_ok [OF a [unfolded r1]]
    note S = save_ok [OF s [unfolded r2]]
    have ring2: "keyRing km2 = (keyRing km)\<lparr>Eth := (Eth (keyRing km))(ident k \<mapsto> k)\<rparr>"
      using A(1) S(1) by simp
    have e2: "Eth (keyRing km2) = (Eth (keyRing km))(ident k \<mapsto> k)"
      and o2: "CSA (keyRing km2) = CSA (keyRing km)" "OCR (keyRing km2) = OCR (keyRing km)"
        "P2P (keyRing km2) = P2P (keyRing km)" "VRF (keyRing km2) = VRF (keyRing km)"
      by (simp_all add: ring2)
    have f2: "password km2 = password km" "keyStates km2 = keyStates km"
      "scryptParams km2 = scryptParams km"
      using A(2,3,4) S(2,3,4) by simp_all
    have step: "migrateKeys (k # ks) (Eth (keyRing km)) = migrateKeys ks (Eth (keyRing km2))"
      using False by (simp only: e2 migrateKeys.simps) simp
    from Cons.IH [OF rest] show ?thesis
      by (simp only: step o2 f2)
  qed
qed

lemma Migrate_ok:
  assumes "Migrate c src pw chain km = (None, km')"
  obtains ks1 ks2 ks3 ks4 ethKeys states km5 where
    "\<not> isLocked km" "csaV1 src = Inr ks1" "ocrV1 src = Inr ks2" "p2pV1 src = Inr ks3"
    "vrfV1 src pw = Inr ks4" "ethV1 src chain = Inr (ethKeys, states)"
    "save c [] (km\<lparr>keyRing := (keyRing km)\<lparr>CSA := migrateKeys ks1 (CSA (keyRing km)),
                                       OCR := migrateKeys ks2 (OCR (keyRing km)),
                                       P2P := migrateKeys ks3 (P2P (keyRing km)),
                                       VRF := migrateKeys ks4 (VRF (keyRing km))\<rparr>\<rparr>) = (None, km5)"
    "migrateEth c ethKeys states 0 km5 = (None, km')"
proof -
  have nl: "\<not> isLocked km" using assms by (auto simp: Migrate_def split: if_splits)
  obtain r4 km4 where f: "migrateFamilies src pw km = (r4, km4)" by (cases "migrateFamilies src pw km")
  have r4: "r4 = None" using assms nl f by (cases r4) (auto simp: Migrate_def)
  from migrateFamilies_None [OF f [unfolded r4]] obtain ks1 ks2 ks3 ks4 where
    fs: "csaV1 src = Inr ks1" "ocrV1 src = Inr ks2" "p2pV1 src = Inr ks3" "vrfV1 src pw = Inr ks4"
    by blast
  note k4 = migrateFamilies_ok [OF fs, of km]
  obtain r5 km5 where s: "save c [] km4 = (r5, km5)" by (cases "save c [] km4")
  have r5: "r5 = None" using assms nl f r4 s by (cases r5) (auto simp: Migrate_def)
  obtain ethKeys states where e: "ethV1 src chain = Inr (ethKeys, states)"
    using assms nl f r4 s r5 by (cases "ethV1 src chain") (auto simp: Migrate_def)
  have m: "migrateEth c ethKeys states 0 km5 = (None, km')"
    using assms nl f r4 s r5 e by (simp add: Migrate_def)
  have km4: "km4 = km\<lparr>keyRing := (keyRing km)\<lparr>CSA := migrateKeys ks1 (CSA (keyRing km)),
                                       OCR := migrateKeys ks2 (OCR (keyRing km)),
                                       P2P := migrateKeys ks3 (P2P (keyRing km)),
                                       VRF := migrateKeys ks4 (VRF (keyRing km))\<rparr>\<rparr>"
    using k4 f r4 by simp
  show thesis using that [OF nl fs e s [unfolded r5 km4] m] .
qed

lemma save_recording:
  assumes "save (recording c) cbs km = (None, km')"
  shows "\<exists>ekb. Encrypt c (keyRing km) (password km) (scryptParams km) = Inr ekb \<and>
               snd (orm km') = snd (orm km) @ [(ekb, cbs)]"
  using assms by (auto simp: save_def recording_def split: sum.splits prod.splits)

lemma addEthKeyWithState_recording:
  assumes "addEthKeyWithState (recording c) k st km = (None, km1)"
  shows "\<exists>ekb. snd (orm km1) = snd (orm km) @ [(ekb, [InsertKeyState st])]"
proof -
  have run: "safeAddKey (recording c) (EthKeyV2 k) [InsertKeyState st] km = (None, km1)"
    using assms by (simp add: addEthKeyWithState_def)
  have f: "getFieldNameForKey (EthKeyV2 k) = Inr ''Eth''" by simp
  obtain kr1 where k1: "SetMapIndex ''Eth'' (ID (EthKeyV2 k)) (Some (concrete (EthKeyV2 k))) (keyRing km) = Some kr1"
    using SetMapIndex_known [OF f] by blast
  obtain kr3 where k3: "SetMapIndex ''Eth'' (ID (EthKeyV2 k)) None kr1 = Some kr3"
    using SetMapIndex_known [OF f] by blast
  obtain r km2 where s: "save (recording c) [InsertKeyState st] (km\<lparr>keyRing := kr1\<rparr>) = (r, km2)"
    by (cases "save (recording c) [InsertKeyState st] (km\<lparr>keyRing := kr1\<rparr>)")
  have "r = None \<and> km2 = km1"
    using safeAddKey_unfold [OF f k1 k3, of "recording c" "[InsertKeyState st]"] run s
    by (cases r) simp_all
  with s have "save (recording c) [InsertKeyState st] (km\<lparr>keyRing := kr1\<rparr>) = (None, km1)" by simp
  from save_recording [OF this] show ?thesis by auto
qed

lemma migrateEth_calls:
  "migrateEth (recording c) ks states idx km = (None, km') \<Longrightarrow>
   \<exists>ext. snd (orm km') = snd (orm km) @ ext \<and>
     map snd ext =
       concat (map (\<lambda>(k, st). [[InsertKeyState st], []])
                 (freshEth (zip ks (drop idx states)) (Eth (keyRing km))))"
proof (induction ks arbitrary: idx km)
  case Nil
  then show ?case by simp
next
  case (Cons k ks)
  show ?case
  proof (cases "Eth (keyRing km) (ident k) \<noteq> None")
    case True
    with Cons.prems have rest: "migrateEth (recording c) ks states (Suc idx) km = (None, km')" by simp
    show ?thesis
    proof (cases "idx < length states")
      case inr: True
      then have d: "drop idx states = states ! idx # drop (Suc idx) states"
        by (simp add: Cons_nth_drop_Suc)
      show ?thesis using Cons.IH [OF rest] True by (simp add: d)
    next
      case False
      then show ?thesis using Cons.IH [OF rest] by simp
    qed
  next
    case False
    with Cons.prems have inr: "idx < length states"
      by (auto split: if_splits)
    then have d: "drop idx states = states ! idx # drop (Suc idx) states"
      by (simp add: Cons_nth_drop_Suc)
    obtain r1 km1 where a: "addEthKeyWithState (recording c) k (states ! idx) km = (r1, km1)"
      by (cases "addEthKeyWithState (recording c) k (states ! idx) km")
    have r1: "r1 = None" using Cons.prems False inr a by (cases r1) auto
    obtain r2 km2 where s: "save (recording c) [] km1 = (r2, km2)" by (cases "save (recording c) [] km1")
    have r2: "r2 = None" using Cons.prems False inr a r1 s by (cases r2) auto
    have rest: "migrateEth (recording c) ks states (Suc idx) km2 = (None, km')"
      using Cons.prems False inr a r1 s r2 by simp
    note A = addEthKeyWithState_ok [OF a [unfolded r1]]
    note S = save_ok [OF s [unfolded r2]]
    have e2: "Eth (keyRing km2) = (Eth (keyRing km))(ident k \<mapsto> k)"
      using A(1) S(1) by simp
    obtain b1 where c1: "snd (orm km1) = snd (orm km) @ [(b1, [InsertKeyState (states ! idx)])]"
      using addEthKeyWithState_recording [OF a [unfolded r1]] by blast
    obtain b2 where c2: "snd (orm km2) = snd (orm km1) @ [(b2, [])]"
      using save_recording [OF s [unfolded r2]] by blast
    have fr: "freshEth (zip (k # ks) (drop idx states)) (Eth (keyRing km)) =
                (k, states ! idx) # freshEth (zip ks (drop (Suc idx) states)) (Eth (keyRing km2))"
      using False by (simp only: d e2 zip_Cons_Cons freshEth.simps) simp
    from Cons.IH [OF rest] obtain ext where
      x: "snd (orm km') = snd (orm km2) @ ext"
        "map snd ext = concat (map (\<lambda>(k, st). [[InsertKeyState st], []])
                         (freshEth (zip ks (drop (Suc idx) states)) (Eth (keyRing km2))))"
      by blast
    have "snd (orm km') =
            snd (orm km) @ ((b1, [InsertKeyState (states ! idx)]) # (b2, []) # ext)"
      by (simp add: x(1) c1 c2)
    moreover have "map snd ((b1, [InsertKeyState (states ! idx)]) # (b2, []) # ext) =
        concat (map (\<lambda>(k, st). [[InsertKeyState st], []])
                  (freshEth (zip (k # ks) (drop idx states)) (Eth (keyRing km))))"
      by (simp only: fr) (simp add: x(2))
    ultimately show ?thesis by blast
  qed
qed


lemma recORM_simps:
  "Encrypt (recording memORM) kr pw params = Inr (pw, kr)"
  "saveEncryptedKeyRing (recording memORM) d ekr cbs =
     (if failing (fst d) then (Some (New ''database is down''), (fst d, snd d @ [(ekr, cbs)]))
      else (None, ((fst d)\<lparr>blob := Some ekr, stateRows := stateRows (fst d) @ stateWrites cbs\<rparr>,
                   snd d @ [(ekr, cbs)])))"
  by (simp_all add: recording_def memORM_def)

lemma run_rec:
  "fst (Migrate (recording memORM) legacyA ''vrf-pw'' 1 kmRec) = None"
  "map snd (snd (orm (snd (Migrate (recording memORM) legacyA ''vrf-pw'' 1 kmRec)))) =
     [[], [InsertKeyState stateB], []]"
  by (simp_all add: Migrate_def isLocked_def kmRec_def migrateFamilies_def legacyA_def Let_def
        save_def recORM_simps dbA_def addEthKeyWithState_def safeAddKey_def SetMapIndex_names
        ID_def keyA_def keyB_def keyC_def ringA_def emptyKeyRing_def)

lemma run_mem:
  "fst (Migrate memORM legacyA ''vrf-pw'' 1 (kmOpen dbA)) = None"
  "\<not> failing (orm (snd (Migrate memORM legacyA ''vrf-pw'' 1 (kmOpen dbA))))"
  by (simp_all add: Migrate_def isLocked_def kmOpen_def migrateFamilies_def legacyA_def Let_def
        save_def memORM_def dbA_def addEthKeyWithState_def safeAddKey_def SetMapIndex_names
        ID_def keyA_def keyB_def keyC_def ringA_def emptyKeyRing_def)

lemma Migrate_success_trace:
  assumes "Migrate (recording c) src pw chain km = (None, km')"
    and "csaV1 src = Inr csaKeys" and "ocrV1 src = Inr ocrKeys" and "p2pV1 src = Inr p2pKeys"
    and "vrfV1 src pw = Inr vrfKeys" and "ethV1 src chain = Inr (ethKeys, states)"
  shows "CSA (keyRing km') = map_of (map (\<lambda>k. (ident k, k)) csaKeys) ++ CSA (keyRing km) \<and>
         OCR (keyRing km') = map_of (map (\<lambda>k. (ident k, k)) ocrKeys) ++ OCR (keyRing km) \<and>
         P2P (keyRing km') = map_of (map (\<lambda>k. (ident k, k)) p2pKeys) ++ P2P (keyRing km) \<and>
         VRF (keyRing km') = map_of (map (\<lambda>k. (ident k, k)) vrfKeys) ++ VRF (keyRing km) \<and>
         Eth (keyRing km') = map_of (map (\<lambda>k. (ident k, k)) ethKeys) ++ Eth (keyRing km) \<and>
         take (length (snd (orm km))) (snd (orm km')) = snd (orm km) \<and>
         map snd (drop (length (snd (orm km))) (snd (orm km'))) =
           [] # concat (map (\<lambda>(k, st). [[InsertKeyState st], []])
                          (freshEth (zip ethKeys states) (Eth (keyRing km)))) \<and>
         Encrypt c ((keyRing km)\<lparr>CSA := CSA (keyRing km'), OCR := OCR (keyRing km'),
                                  P2P := P2P (keyRing km'), VRF := VRF (keyRing km')\<rparr>)
                   (password km) (scryptParams km) =
           Inr (fst (snd (orm km') ! length (snd (orm km))))"
proof -
  from assms(1) obtain ks1 ks2 ks3 ks4 eks sts km5 where
    fs: "csaV1 src = Inr ks1" "ocrV1 src = Inr ks2" "p2pV1 src = Inr ks3"
      "vrfV1 src pw = Inr ks4" "ethV1 src chain = Inr (eks, sts)"
    and s: "save (recording c) [] (km\<lparr>keyRing := (keyRing km)\<lparr>CSA := migrateKeys ks1 (CSA (keyRing km)),
                                       OCR := migrateKeys ks2 (OCR (keyRing km)),
                                       P2P := migrateKeys ks3 (P2P (keyRing km)),
                                       VRF := migrateKeys ks4 (VRF (keyRing km))\<rparr>\<rparr>) = (None, km5)"
    and m: "migrateEth (recording c) eks sts 0 km5 = (None, km')"
    by (rule Migrate_ok)
  have eq: "ks1 = csaKeys" "ks2 = ocrKeys" "ks3 = p2pKeys" "ks4 = vrfKeys" "eks = ethKeys" "sts = states"
    using fs assms(2-6) by simp_all
  let ?r4 = "(keyRing km)\<lparr>CSA := migrateKeys csaKeys (CSA (keyRing km)),
                          OCR := migrateKeys ocrKeys (OCR (keyRing km)),
                          P2P := migrateKeys p2pKeys (P2P (keyRing km)),
                          VRF := migrateKeys vrfKeys (VRF (keyRing km))\<rparr>"
  note S = save_ok [OF s [unfolded eq]]
  note M = migrateEth_ok [OF m [unfolded eq]]
  have ring5: "keyRing km5 = ?r4" using S(1) by simp
  have csa: "CSA (keyRing km') = migrateKeys csaKeys (CSA (keyRing km))"
    and ocr: "OCR (keyRing km') = migrateKeys ocrKeys (OCR (keyRing km))"
    and p2p: "P2P (keyRing km') = migrateKeys p2pKeys (P2P (keyRing km))"
    and vrf: "VRF (keyRing km') = migrateKeys vrfKeys (VRF (keyRing km))"
    and eth: "Eth (keyRing km') = migrateKeys ethKeys (Eth (keyRing km))"
    using M by (simp_all add: ring5)
  obtain ekb where enc: "Encrypt c ?r4 (password km) (scryptParams km) = Inr ekb"
    and log5: "snd (orm km5) = snd (orm km) @ [(ekb, [])]"
    using save_recording [OF s [unfolded eq]] by auto
  obtain ext where log: "snd (orm km') = snd (orm km5) @ ext"
    and cbs: "map snd ext = concat (map (\<lambda>(k, st). [[InsertKeyState st], []])
                              (freshEth (zip ethKeys states) (Eth (keyRing km))))"
    using migrateEth_calls [OF m [unfolded eq]] by (auto simp: ring5)
  have full: "snd (orm km') = snd (orm km) @ (ekb, []) # ext" by (simp add: log log5)
  have r4: "(keyRing km)\<lparr>CSA := CSA (keyRing km'), OCR := OCR (keyRing km'),
                         P2P := P2P (keyRing km'), VRF := VRF (keyRing km')\<rparr> = ?r4"
    by (simp only: csa ocr p2p vrf)
  have t: "take (length (snd (orm km))) (snd (orm km')) = snd (orm km)" by (simp add: full)
  have d: "map snd (drop (length (snd (orm km))) (snd (orm km'))) =
           [] # concat (map (\<lambda>(k, st). [[InsertKeyState st], []])
                          (freshEth (zip ethKeys states) (Eth (keyRing km))))"
    by (simp add: full cbs)
  have b: "Encrypt c ((keyRing km)\<lparr>CSA := CSA (keyRing km'), OCR := OCR (keyRing km'),
                                  P2P := P2P (keyRing km'), VRF := VRF (keyRing km')\<rparr>)
                   (password km) (scryptParams km) =
           Inr (fst (snd (orm km') ! length (snd (orm km))))"
    by (simp only: r4 enc) (simp add: full)
  show ?thesis
    using csa ocr p2p vrf eth t d b by (simp only: migrateKeys_map_add)
qed

lemma kmRec_unlocked: "\<not> isLocked kmRec"
  by (simp add: isLocked_def kmRec_def)

section \<open>Unlock\<close>

text \<open>
  C1, as the code has it. On a first \<^verbatim>\<open>Unlock\<close> (no password set): when the fetch of the
  blob fails, the call returns that error wrapped with the message of the step and the
  whole state is as before; so it is when the decryption fails. When the load of the key
  states fails, the call returns that error wrapped, and when the validation fails, that
  error as it is; in both cases the password, the key states and the database are as
  before the call, so the key manager stays locked. (What the ring holds after a failed
  load or validation is not part of this statement.) When no step fails, the call
  returns no error and the ring, the states and the password are set together.
\<close>

theorem Unlock_first_failure:
  assumes "password km = ''''"
  shows "(getEncryptedKeyRing c (orm km) = Inl e \<longrightarrow>
            Unlock c pw km = (Some (Wrap e ''unable to get encrypted key ring''), km)) \<and>
         (getEncryptedKeyRing c (orm km) = Inr ekr \<and> Decrypt c ekr pw = Inl e \<longrightarrow>
            Unlock c pw km = (Some (Wrap e ''unable to decrypt encrypted key ring''), km)) \<and>
         (getEncryptedKeyRing c (orm km) = Inr ekr \<and> Decrypt c ekr pw = Inr kr \<and>
          loadKeyStates c (orm km) = Inl e \<longrightarrow>
            fst (Unlock c pw km) = Some (Wrap e ''unable to load key states'') \<and>
            password (snd (Unlock c pw km)) = password km \<and>
            keyStates (snd (Unlock c pw km)) = keyStates km \<and>
            orm (snd (Unlock c pw km)) = orm km \<and>
            scryptParams (snd (Unlock c pw km)) = scryptParams km) \<and>
         (getEncryptedKeyRing c (orm km) = Inr ekr \<and> Decrypt c ekr pw = Inr kr \<and>
          loadKeyStates c (orm km) = Inr ks \<and> validate c ks kr = Some e \<longrightarrow>
            fst (Unlock c pw km) = Some e \<and>
            password (snd (Unlock c pw km)) = password km \<and>
            keyStates (snd (Unlock c pw km)) = keyStates km \<and>
            orm (snd (Unlock c pw km)) = orm km \<and>
            scryptParams (snd (Unlock c pw km)) = scryptParams km) \<and>
         (getEncryptedKeyRing c (orm km) = Inr ekr \<and> Decrypt c ekr pw = Inr kr \<and>
          loadKeyStates c (orm km) = Inr ks \<and> validate c ks kr = None \<longrightarrow>
            Unlock c pw km = (None, km\<lparr>keyRing := kr, keyStates := ks, password := pw\<rparr>))"
  using assms by (simp add: Unlock_def Let_def)

text \<open>
  C1, on a locked key manager: at the empty database the fetch fails, with a wrong
  password the decryption fails, and nothing changes; with a state table that cannot be
  read the load fails, with a dangling state row the validation fails, and the password
  and the key states are as before.
\<close>

theorem Unlock_first_failure_witness:
  "Unlock memORM ''pw1'' (kmLocked dbEmpty) =
     (Some (Wrap (New ''sql: no rows in result set'') ''unable to get encrypted key ring''),
      kmLocked dbEmpty) \<and>
   Unlock memORM ''bad'' (kmLocked dbA) =
     (Some (Wrap (New ''could not decrypt data'') ''unable to decrypt encrypted key ring''),
      kmLocked dbA) \<and>
   fst (Unlock brokenStatesORM ''pw1'' (kmLocked dbA)) =
     Some (Wrap (New ''connection reset'') ''unable to load key states'') \<and>
   password (snd (Unlock brokenStatesORM ''pw1'' (kmLocked dbA))) = '''' \<and>
   keyStates (snd (Unlock brokenStatesORM ''pw1'' (kmLocked dbA))) = [] \<and>
   fst (Unlock memORM ''pw1'' (kmLocked dbDangling)) =
     Some (New ''key record expected to exist for key state: 0xB'') \<and>
   password (snd (Unlock memORM ''pw1'' (kmLocked dbDangling))) = '''' \<and>
   keyStates (snd (Unlock memORM ''pw1'' (kmLocked dbDangling))) = []"
proof -
  have pw: "password (kmLocked db) = ''''" for db by (simp add: kmLocked_def)
  have sel: "keyStates (kmLocked db) = []" for db by (simp add: kmLocked_def)
  have fetch: "getEncryptedKeyRing memORM (orm (kmLocked dbEmpty)) = Inl (New ''sql: no rows in result set'')"
    by (simp add: memORM_def kmLocked_def dbEmpty_def)
  have a: "Unlock memORM ''pw1'' (kmLocked dbEmpty) =
     (Some (Wrap (New ''sql: no rows in result set'') ''unable to get encrypted key ring''),
      kmLocked dbEmpty)"
    using Unlock_first_failure [OF pw [of dbEmpty], where c = memORM and e = "New ''sql: no rows in result set''" and pw = "''pw1''"] fetch
    by blast
  have dec: "getEncryptedKeyRing memORM (orm (kmLocked dbA)) = Inr (''pw1'', ringA) \<and>
             Decrypt memORM (''pw1'', ringA) ''bad'' = Inl (New ''could not decrypt data'')"
    by (simp add: memORM_def kmLocked_def dbA_def)
  have b: "Unlock memORM ''bad'' (kmLocked dbA) =
     (Some (Wrap (New ''could not decrypt data'') ''unable to decrypt encrypted key ring''),
      kmLocked dbA)"
    using Unlock_first_failure [OF pw [of dbA], where c = memORM and pw = "''bad''"
        and ekr = "(''pw1'', ringA)" and e = "New ''could not decrypt data''"] dec
    by blast
  have load: "getEncryptedKeyRing brokenStatesORM (orm (kmLocked dbA)) = Inr (''pw1'', ringA) \<and>
             Decrypt brokenStatesORM (''pw1'', ringA) ''pw1'' = Inr ringA \<and>
             loadKeyStates brokenStatesORM (orm (kmLocked dbA)) = Inl (New ''connection reset'')"
    by (simp add: brokenStatesORM_def memORM_def kmLocked_def dbA_def)
  have l: "fst (Unlock brokenStatesORM ''pw1'' (kmLocked dbA)) =
             Some (Wrap (New ''connection reset'') ''unable to load key states'')"
    "password (snd (Unlock brokenStatesORM ''pw1'' (kmLocked dbA))) = ''''"
    "keyStates (snd (Unlock brokenStatesORM ''pw1'' (kmLocked dbA))) = []"
    using Unlock_first_failure [OF pw [of dbA], where c = brokenStatesORM and pw = "''pw1''"
        and ekr = "(''pw1'', ringA)" and kr = ringA and e = "New ''connection reset''"] load
    by (simp_all only: pw sel)
  have val: "getEncryptedKeyRing memORM (orm (kmLocked dbDangling)) = Inr (''pw1'', ringA) \<and>
             Decrypt memORM (''pw1'', ringA) ''pw1'' = Inr ringA \<and>
             loadKeyStates memORM (orm (kmLocked dbDangling)) = Inr [stateA, stateB] \<and>
             validate memORM [stateA, stateB] ringA =
               Some (New ''key record expected to exist for key state: 0xB'')"
    by (simp add: memORM_def kmLocked_def dbDangling_def stateA_def stateB_def ringA_def
                  emptyKeyRing_def)
  have v: "fst (Unlock memORM ''pw1'' (kmLocked dbDangling)) =
             Some (New ''key record expected to exist for key state: 0xB'')"
    "password (snd (Unlock memORM ''pw1'' (kmLocked dbDangling))) = ''''"
    "keyStates (snd (Unlock memORM ''pw1'' (kmLocked dbDangling))) = []"
    using Unlock_first_failure [OF pw [of dbDangling], where c = memORM and pw = "''pw1''"
        and ekr = "(''pw1'', ringA)" and kr = ringA and ks = "[stateA, stateB]"
        and e = "New ''key record expected to exist for key state: 0xB''"] val
    by (simp_all only: pw sel)
  from a b l v show ?thesis by blast
qed

text \<open>
  C1 as stated fails. The database holds a blob that \<open>pw1\<close> decrypts and a state row for
  \<open>0xB\<close>, a key the ring does not hold. The first \<^verbatim>\<open>Unlock\<close> fails in validation, and the
  ring of the key manager, empty before the call, is the decrypted ring after it:
  line 198 assigns it before the states are loaded and validated.
\<close>

theorem Unlock_partial_commit_counterexample:
  "password (kmLocked dbDangling) = '''' \<and>
   fst (Unlock memORM ''pw1'' (kmLocked dbDangling)) =
     Some (New ''key record expected to exist for key state: 0xB'') \<and>
   keyRing (kmLocked dbDangling) = emptyKeyRing \<and>
   keyRing (snd (Unlock memORM ''pw1'' (kmLocked dbDangling))) = ringA \<and>
   keyRing (snd (Unlock memORM ''pw1'' (kmLocked dbDangling))) \<noteq> keyRing (kmLocked dbDangling)"
proof -
  have "Unlock memORM ''pw1'' (kmLocked dbDangling) =
          (Some (New ''key record expected to exist for key state: 0xB''),
           (kmLocked dbDangling)\<lparr>keyRing := ringA\<rparr>)"
    by (simp add: Unlock_def memORM_def kmLocked_def dbDangling_def Let_def
                  stateA_def stateB_def ringA_def emptyKeyRing_def)
  then show ?thesis using ringA_not_empty by (simp add: kmLocked_def)
qed

text \<open>
  C3. Once a password is set, \<^verbatim>\<open>Unlock\<close> with the same password succeeds and with any
  other password fails with the mismatch error; in both cases the state of the key
  manager, the database with it, is the one before the call, whatever the store is.
  \<^verbatim>\<open>safeAddKey\<close> and \<^verbatim>\<open>safeRemoveKey\<close> leave the password as it is, so this holds
  after any calls of them as well.
\<close>

theorem Unlock_again:
  assumes "password km \<noteq> ''''"
  shows "Unlock c pw km =
           (if pw = password km then (None, km)
            else (Some (New ''attempting to unlock keystore again with a different password''), km)) \<and>
         password (snd (safeAddKey c k cbs km)) = password km \<and>
         password (snd (safeRemoveKey c k cbs km)) = password km"
  using assms
  by (simp add: Unlock_def safeAddKey_other_fields(1) safeRemoveKey_other_fields(1))

text \<open>
  C3, on an unlocked key manager: the same password, then another one, and another one
  after a key was added.
\<close>

theorem Unlock_again_witness:
  "Unlock memORM ''pw1'' (kmOpen dbA) = (None, kmOpen dbA) \<and>
   Unlock memORM ''pw2'' (kmOpen dbA) =
     (Some (New ''attempting to unlock keystore again with a different password''), kmOpen dbA) \<and>
   Unlock memORM ''pw2'' (snd (safeAddKey memORM (EthKeyV2 keyB) [] (kmOpen dbA))) =
     (Some (New ''attempting to unlock keystore again with a different password''),
      snd (safeAddKey memORM (EthKeyV2 keyB) [] (kmOpen dbA)))"
proof -
  have pw: "password (kmOpen dbA) \<noteq> ''''" by (simp add: kmOpen_def)
  note first = Unlock_again [OF pw, of memORM _ "EthKeyV2 keyB" "[]"]
  have pw2: "password (snd (safeAddKey memORM (EthKeyV2 keyB) [] (kmOpen dbA))) = ''pw1''"
    using first [of "''pw1''"] by (simp add: kmOpen_def)
  then have pw3: "password (snd (safeAddKey memORM (EthKeyV2 keyB) [] (kmOpen dbA))) \<noteq> ''''"
    by simp
  show ?thesis
    using first [of "''pw1''"] first [of "''pw2''"]
      Unlock_again [OF pw3, of memORM "''pw2''" "EthKeyV2 keyB" "[]"] pw2
    by (simp add: kmOpen_def)
qed

text \<open>
  C10. A failed \<^verbatim>\<open>Unlock\<close> leaves the password as it was: on a locked key manager
  the password is still empty and \<^verbatim>\<open>isLocked\<close> still answers true.
\<close>

theorem Unlock_failed_stays_locked:
  assumes "Unlock c pw km = (Some err, km')"
  shows "password km' = password km \<and> (isLocked km \<longrightarrow> password km' = '''' \<and> isLocked km')"
  using assms
  by (auto simp: Unlock_def isLocked_def Let_def split: if_splits sum.splits option.splits)

text \<open>C10, on a locked key manager and a wrong password.\<close>

theorem Unlock_failed_stays_locked_witness:
  "password (snd (Unlock memORM ''bad'' (kmLocked dbA))) = '''' \<and>
   isLocked (snd (Unlock memORM ''bad'' (kmLocked dbA))) \<and>
   fst (Unlock memORM ''bad'' (kmLocked dbA)) =
     Some (Wrap (New ''could not decrypt data'') ''unable to decrypt encrypted key ring'')"
proof -
  have run: "Unlock memORM ''bad'' (kmLocked dbA) =
      (Some (Wrap (New ''could not decrypt data'') ''unable to decrypt encrypted key ring''), kmLocked dbA)"
    by (simp add: Unlock_def memORM_def kmLocked_def dbA_def)
  have "isLocked (kmLocked dbA)" by (simp add: isLocked_def kmLocked_def)
  with Unlock_failed_stays_locked [OF run] show ?thesis by (simp add: run)
qed

section \<open>Safe add and safe remove\<close>

text \<open>
  C2, as the code has it. For a key of a known family: when the save fails, \<^verbatim>\<open>safeAddKey\<close>
  returns the error of the save and the ring is the one before the call, provided the
  map of the family held no entry under the key's id; \<^verbatim>\<open>safeRemoveKey\<close> does the same,
  provided the map held this very key under its id.
\<close>

theorem safe_mutation_rollback:
  assumes "getFieldNameForKey k = Inr f" and "FieldByName f (keyRing km) = Some m"
  shows "(m (ID k) = None \<and>
          SetMapIndex f (ID k) (Some (concrete k)) (keyRing km) = Some kr1 \<and>
          save c cbs (km\<lparr>keyRing := kr1\<rparr>) = (Some err, km2) \<longrightarrow>
            safeAddKey c k cbs km = (Some err, km2\<lparr>keyRing := keyRing km\<rparr>)) \<and>
         (m (ID k) = Some (concrete k) \<and>
          SetMapIndex f (ID k) None (keyRing km) = Some kr1 \<and>
          save c cbs (km\<lparr>keyRing := kr1\<rparr>) = (Some err, km2) \<longrightarrow>
            safeRemoveKey c k cbs km = (Some err, km2\<lparr>keyRing := keyRing km\<rparr>))"
proof (intro conjI impI)
  assume a: "m (ID k) = None \<and>
          SetMapIndex f (ID k) (Some (concrete k)) (keyRing km) = Some kr1 \<and>
          save c cbs (km\<lparr>keyRing := kr1\<rparr>) = (Some err, km2)"
  then have k1: "SetMapIndex f (ID k) (Some (concrete k)) (keyRing km) = Some kr1" by simp
  have k3: "SetMapIndex f (ID k) None kr1 = Some (keyRing km)"
    using SetMapIndex_undo [OF assms k1] a by simp
  show "safeAddKey c k cbs km = (Some err, km2\<lparr>keyRing := keyRing km\<rparr>)"
    using a safeAddKey_unfold [OF assms(1) k1 k3, of c cbs] by simp
next
  assume a: "m (ID k) = Some (concrete k) \<and>
          SetMapIndex f (ID k) None (keyRing km) = Some kr1 \<and>
          save c cbs (km\<lparr>keyRing := kr1\<rparr>) = (Some err, km2)"
  then have k1: "SetMapIndex f (ID k) None (keyRing km) = Some kr1" by simp
  have k3: "SetMapIndex f (ID k) (Some (concrete k)) kr1 = Some (keyRing km)"
    using SetMapIndex_undo [OF assms k1] a by simp
  show "safeRemoveKey c k cbs km = (Some err, km2\<lparr>keyRing := keyRing km\<rparr>)"
    using a safeRemoveKey_unfold [OF assms(1) k1 k3, of c cbs] by simp
qed

text \<open>C2, with the database down: a new key is added, a present key is removed, and the ring is as before.\<close>

theorem safe_mutation_rollback_witness:
  "safeAddKey memORM (EthKeyV2 keyB) [InsertKeyState stateB] (kmOpen dbDown) =
     (Some (New ''database is down''), kmOpen dbDown) \<and>
   safeRemoveKey memORM (EthKeyV2 keyA) [] (kmOpen dbDown) =
     (Some (New ''database is down''), kmOpen dbDown)"
proof -
  let ?km = "kmOpen dbDown"
  have fB: "getFieldNameForKey (EthKeyV2 keyB) = Inr ''Eth''" by simp
  have fA: "getFieldNameForKey (EthKeyV2 keyA) = Inr ''Eth''" by simp
  have m: "FieldByName ''Eth'' (keyRing ?km) = Some (Eth ringA)"
    by (simp add: FieldByName_def kmOpen_simps)
  have absent: "Eth ringA (ID (EthKeyV2 keyB)) = None"
    by (simp add: ringA_def emptyKeyRing_def ID_def keyB_def)
  have present: "Eth ringA (ID (EthKeyV2 keyA)) = Some (concrete (EthKeyV2 keyA))"
    by (simp add: ringA_def emptyKeyRing_def ID_def keyA_def)
  have down: "failing (orm ?km)" by (simp add: kmOpen_simps dbDown_def)
  have sB: "SetMapIndex ''Eth'' (ID (EthKeyV2 keyB)) (Some (concrete (EthKeyV2 keyB))) (keyRing ?km)
              = Some (ringA\<lparr>Eth := (Eth ringA)(''0xB'' \<mapsto> keyB)\<rparr>)"
    by (simp add: SetMapIndex_def kmOpen_simps ID_def keyB_def)
  have sA: "SetMapIndex ''Eth'' (ID (EthKeyV2 keyA)) None (keyRing ?km)
              = Some (ringA\<lparr>Eth := (Eth ringA)(''0xA'' := None)\<rparr>)"
    by (simp add: SetMapIndex_def kmOpen_simps ID_def keyA_def)
  have saveB: "save memORM [InsertKeyState stateB] (?km\<lparr>keyRing := ringA\<lparr>Eth := (Eth ringA)(''0xB'' \<mapsto> keyB)\<rparr>\<rparr>)
      = (Some (New ''database is down''), ?km\<lparr>keyRing := ringA\<lparr>Eth := (Eth ringA)(''0xB'' \<mapsto> keyB)\<rparr>\<rparr>)"
    using down by (simp add: save_memORM_down)
  have saveA: "save memORM [] (?km\<lparr>keyRing := ringA\<lparr>Eth := (Eth ringA)(''0xA'' := None)\<rparr>\<rparr>)
      = (Some (New ''database is down''), ?km\<lparr>keyRing := ringA\<lparr>Eth := (Eth ringA)(''0xA'' := None)\<rparr>\<rparr>)"
    using down by (simp add: save_memORM_down)
  have same: "\<And>r. ?km\<lparr>keyRing := r, keyRing := keyRing ?km\<rparr> = ?km" by simp
  from safe_mutation_rollback [OF fB m, THEN conjunct1, rule_format, OF conjI [OF absent conjI [OF sB saveB]]]
       safe_mutation_rollback [OF fA m, THEN conjunct2, rule_format, OF conjI [OF present conjI [OF sA saveA]]]
  show ?thesis by (simp only: same)
qed

text \<open>
  C2 as stated fails. The ring holds the key \<open>0xA\<close>; \<^verbatim>\<open>safeAddKey\<close> of that key with the
  database down returns the error of the save, and the roll-back deletes the entry:
  the ring after the call no longer holds the key.
\<close>

theorem failed_overwrite_counterexample:
  "getFieldNameForKey (EthKeyV2 keyA) = Inr ''Eth'' \<and>
   fst (safeAddKey memORM (EthKeyV2 keyA) [] (kmOpen dbDown)) = Some (New ''database is down'') \<and>
   Eth (keyRing (kmOpen dbDown)) ''0xA'' = Some keyA \<and>
   Eth (keyRing (snd (safeAddKey memORM (EthKeyV2 keyA) [] (kmOpen dbDown)))) ''0xA'' = None \<and>
   keyRing (snd (safeAddKey memORM (EthKeyV2 keyA) [] (kmOpen dbDown))) \<noteq> keyRing (kmOpen dbDown)"
proof -
  have run: "safeAddKey memORM (EthKeyV2 keyA) [] (kmOpen dbDown) =
               (Some (New ''database is down''),
                (kmOpen dbDown)\<lparr>keyRing := ringA\<lparr>Eth := (Eth ringA)(''0xA'' := None)\<rparr>\<rparr>)"
    by (simp add: safeAddKey_def SetMapIndex_def save_memORM_down kmOpen_simps dbDown_def
                  ID_def keyA_def)
  have before: "Eth (keyRing (kmOpen dbDown)) ''0xA'' = Some keyA"
    by (simp add: kmOpen_simps ringA_def emptyKeyRing_def)
  have after: "Eth (keyRing (snd (safeAddKey memORM (EthKeyV2 keyA) [] (kmOpen dbDown)))) ''0xA'' = None"
    by (simp add: run)
  have err: "fst (safeAddKey memORM (EthKeyV2 keyA) [] (kmOpen dbDown)) = Some (New ''database is down'')"
    by (simp only: run fst_conv)
  have fam: "getFieldNameForKey (EthKeyV2 keyA) = Inr ''Eth''" by simp
  have neq: "keyRing (snd (safeAddKey memORM (EthKeyV2 keyA) [] (kmOpen dbDown))) \<noteq> keyRing (kmOpen dbDown)"
  proof
    assume "keyRing (snd (safeAddKey memORM (EthKeyV2 keyA) [] (kmOpen dbDown))) = keyRing (kmOpen dbDown)"
    then have "Eth (keyRing (snd (safeAddKey memORM (EthKeyV2 keyA) [] (kmOpen dbDown)))) ''0xA''
                 = Eth (keyRing (kmOpen dbDown)) ''0xA''" by simp
    with before after show False by simp
  qed
  show ?thesis using fam err before after neq by (intro conjI) assumption+
qed

text \<open>
  C8. For a key of a known family whose id the map of its family already holds, a
  successful \<^verbatim>\<open>safeAddKey\<close> leaves that map with the key stored under its id in place of
  the entry that was there, and with the same set of ids as before: the entry is
  replaced, none is added.
\<close>

theorem safeAddKey_overwrites:
  assumes "getFieldNameForKey k = Inr f" and "FieldByName f (keyRing km) = Some m"
    and "m (ID k) = Some old" and "safeAddKey c k cbs km = (None, km')"
  shows "FieldByName f (keyRing km') = Some (m(ID k \<mapsto> concrete k)) \<and>
         dom (m(ID k \<mapsto> concrete k)) = dom m"
proof -
  have "SetMapIndex f (ID k) (Some (concrete k)) (keyRing km) = Some (keyRing km')"
    using safeAddKey_ring [OF assms(1), of c cbs km] assms(4) by simp
  from SetMapIndex_FieldByName [OF assms(1,2) this]
  have "FieldByName f (keyRing km') = Some (m(ID k \<mapsto> concrete k))" .
  moreover have "dom (m(ID k \<mapsto> concrete k)) = dom m" using assms(3) by auto
  ultimately show ?thesis by simp
qed

text \<open>C8, on the ring that holds \<open>0xA\<close>: the key is added again with new material.\<close>

theorem safeAddKey_overwrites_witness:
  "safeAddKey memORM (EthKeyV2 keyA2) [] (kmOpen dbA) =
     (None, (kmOpen dbA)\<lparr>keyRing := ringA\<lparr>Eth := (Eth ringA)(''0xA'' \<mapsto> keyA2)\<rparr>,
                            orm := dbA\<lparr>blob := Some (''pw1'', ringA\<lparr>Eth := (Eth ringA)(''0xA'' \<mapsto> keyA2)\<rparr>)\<rparr>\<rparr>) \<and>
   Eth ringA ''0xA'' = Some keyA \<and>
   FieldByName ''Eth'' (keyRing (snd (safeAddKey memORM (EthKeyV2 keyA2) [] (kmOpen dbA)))) =
     Some ((Eth ringA)(''0xA'' \<mapsto> keyA2)) \<and>
   dom ((Eth ringA)(''0xA'' \<mapsto> keyA2)) = dom (Eth ringA)"
proof -
  have f: "getFieldNameForKey (EthKeyV2 keyA2) = Inr ''Eth''" by simp
  have m: "FieldByName ''Eth'' (keyRing (kmOpen dbA)) = Some (Eth ringA)"
    by (simp add: FieldByName_names kmOpen_simps)
  have i: "ID (EthKeyV2 keyA2) = ''0xA''" "concrete (EthKeyV2 keyA2) = keyA2"
    by (simp_all add: ID_def keyA2_def)
  have old: "Eth ringA (ID (EthKeyV2 keyA2)) = Some keyA"
    by (simp add: i ringA_def emptyKeyRing_def)
  have up: "\<not> failing (orm ((kmOpen dbA)\<lparr>keyRing := ringA\<lparr>Eth := (Eth ringA)(''0xA'' \<mapsto> keyA2)\<rparr>\<rparr>))"
    by (simp add: kmOpen_simps dbA_def)
  have run: "safeAddKey memORM (EthKeyV2 keyA2) [] (kmOpen dbA) =
     (None, (kmOpen dbA)\<lparr>keyRing := ringA\<lparr>Eth := (Eth ringA)(''0xA'' \<mapsto> keyA2)\<rparr>,
                            orm := dbA\<lparr>blob := Some (''pw1'', ringA\<lparr>Eth := (Eth ringA)(''0xA'' \<mapsto> keyA2)\<rparr>)\<rparr>\<rparr>)"
    by (simp add: safeAddKey_def i SetMapIndex_names kmOpen_simps save_memORM_up [OF up])
  from safeAddKey_overwrites [OF f m old run] old run show ?thesis
    by (simp add: i)
qed

text \<open>
  C9. A value that is none of the five key types makes \<^verbatim>\<open>safeAddKey\<close> and
  \<^verbatim>\<open>safeRemoveKey\<close> fail with the unknown-key-type error and the state as before. A key
  of one of the five types touches the map of its own family and no other: after
  \<^verbatim>\<open>safeAddKey\<close> that map holds the key under its id when the call succeeded and no
  entry under that id when it failed; after \<^verbatim>\<open>safeRemoveKey\<close> it holds no entry under
  the id when the call succeeded and the key when it failed.
\<close>

theorem key_family_dispatch:
  "safeAddKey c (OtherKey ty v) cbs km = (Some (New (''unknown key type: '' @ ty)), km) \<and>
   safeRemoveKey c (OtherKey ty v) cbs km = (Some (New (''unknown key type: '' @ ty)), km) \<and>
   keyRing (snd (safeAddKey c (CsaKeyV2 v) cbs km)) =
     (keyRing km)\<lparr>CSA := (CSA (keyRing km))
        (ident v := (if fst (safeAddKey c (CsaKeyV2 v) cbs km) = None then Some v else None))\<rparr> \<and>
   keyRing (snd (safeAddKey c (EthKeyV2 v) cbs km)) =
     (keyRing km)\<lparr>Eth := (Eth (keyRing km))
        (ident v := (if fst (safeAddKey c (EthKeyV2 v) cbs km) = None then Some v else None))\<rparr> \<and>
   keyRing (snd (safeAddKey c (OcrKeyV2 v) cbs km)) =
     (keyRing km)\<lparr>OCR := (OCR (keyRing km))
        (ident v := (if fst (safeAddKey c (OcrKeyV2 v) cbs km) = None then Some v else None))\<rparr> \<and>
   keyRing (snd (safeAddKey c (P2pKeyV2 v) cbs km)) =
     (keyRing km)\<lparr>P2P := (P2P (keyRing km))
        (ident v := (if fst (safeAddKey c (P2pKeyV2 v) cbs km) = None then Some v else None))\<rparr> \<and>
   keyRing (snd (safeAddKey c (VrfKeyV2 v) cbs km)) =
     (keyRing km)\<lparr>VRF := (VRF (keyRing km))
        (ident v := (if fst (safeAddKey c (VrfKeyV2 v) cbs km) = None then Some v else None))\<rparr> \<and>
   keyRing (snd (safeRemoveKey c (CsaKeyV2 v) cbs km)) =
     (keyRing km)\<lparr>CSA := (CSA (keyRing km))
        (ident v := (if fst (safeRemoveKey c (CsaKeyV2 v) cbs km) = None then None else Some v))\<rparr> \<and>
   keyRing (snd (safeRemoveKey c (EthKeyV2 v) cbs km)) =
     (keyRing km)\<lparr>Eth := (Eth (keyRing km))
        (ident v := (if fst (safeRemoveKey c (EthKeyV2 v) cbs km) = None then None else Some v))\<rparr> \<and>
   keyRing (snd (safeRemoveKey c (OcrKeyV2 v) cbs km)) =
     (keyRing km)\<lparr>OCR := (OCR (keyRing km))
        (ident v := (if fst (safeRemoveKey c (OcrKeyV2 v) cbs km) = None then None else Some v))\<rparr> \<and>
   keyRing (snd (safeRemoveKey c (P2pKeyV2 v) cbs km)) =
     (keyRing km)\<lparr>P2P := (P2P (keyRing km))
        (ident v := (if fst (safeRemoveKey c (P2pKeyV2 v) cbs km) = None then None else Some v))\<rparr> \<and>
   keyRing (snd (safeRemoveKey c (VrfKeyV2 v) cbs km)) =
     (keyRing km)\<lparr>VRF := (VRF (keyRing km))
        (ident v := (if fst (safeRemoveKey c (VrfKeyV2 v) cbs km) = None then None else Some v))\<rparr>"
proof -
  have unknown: "safeAddKey c (OtherKey ty v) cbs km = (Some (New (''unknown key type: '' @ ty)), km)"
    "safeRemoveKey c (OtherKey ty v) cbs km = (Some (New (''unknown key type: '' @ ty)), km)"
    by (simp_all add: safeAddKey_def safeRemoveKey_def)
  have addCSA: "keyRing (snd (safeAddKey c (CsaKeyV2 v) cbs km)) =
     (keyRing km)\<lparr>CSA := (CSA (keyRing km))
        (ident v := (if fst (safeAddKey c (CsaKeyV2 v) cbs km) = None then Some v else None))\<rparr>"
    using safeAddKey_ring [of "CsaKeyV2 v" "''CSA''" c cbs km]
    by (cases "fst (safeAddKey c (CsaKeyV2 v) cbs km)") (simp_all add: SetMapIndex_names ID_def)
  have delCSA: "keyRing (snd (safeRemoveKey c (CsaKeyV2 v) cbs km)) =
     (keyRing km)\<lparr>CSA := (CSA (keyRing km))
        (ident v := (if fst (safeRemoveKey c (CsaKeyV2 v) cbs km) = None then None else Some v))\<rparr>"
    using safeRemoveKey_ring [of "CsaKeyV2 v" "''CSA''" c cbs km]
    by (cases "fst (safeRemoveKey c (CsaKeyV2 v) cbs km)") (simp_all add: SetMapIndex_names ID_def)
  have addEth: "keyRing (snd (safeAddKey c (EthKeyV2 v) cbs km)) =
     (keyRing km)\<lparr>Eth := (Eth (keyRing km))
        (ident v := (if fst (safeAddKey c (EthKeyV2 v) cbs km) = None then Some v else None))\<rparr>"
    using safeAddKey_ring [of "EthKeyV2 v" "''Eth''" c cbs km]
    by (cases "fst (safeAddKey c (EthKeyV2 v) cbs km)") (simp_all add: SetMapIndex_names ID_def)
  have delEth: "keyRing (snd (safeRemoveKey c (EthKeyV2 v) cbs km)) =
     (keyRing km)\<lparr>Eth := (Eth (keyRing km))
        (ident v := (if fst (safeRemoveKey c (EthKeyV2 v) cbs km) = None then None else Some v))\<rparr>"
    using safeRemoveKey_ring [of "EthKeyV2 v" "''Eth''" c cbs km]
    by (cases "fst (safeRemoveKey c (EthKeyV2 v) cbs km)") (simp_all add: SetMapIndex_names ID_def)
  have addOCR: "keyRing (snd (safeAddKey c (OcrKeyV2 v) cbs km)) =
     (keyRing km)\<lparr>OCR := (OCR (keyRing km))
        (ident v := (if fst (safeAddKey c (OcrKeyV2 v) cbs km) = None then Some v else None))\<rparr>"
    using safeAddKey_ring [of "OcrKeyV2 v" "''OCR''" c cbs km]
    by (cases "fst (safeAddKey c (OcrKeyV2 v) cbs km)") (simp_all add: SetMapIndex_names ID_def)
  have delOCR: "keyRing (snd (safeRemoveKey c (OcrKeyV2 v) cbs km)) =
     (keyRing km)\<lparr>OCR := (OCR (keyRing km))
        (ident v := (if fst (safeRemoveKey c (OcrKeyV2 v) cbs km) = None then None else Some v))\<rparr>"
    using safeRemoveKey_ring [of "OcrKeyV2 v" "''OCR''" c cbs km]
    by (cases "fst (safeRemoveKey c (OcrKeyV2 v) cbs km)") (simp_all add: SetMapIndex_names ID_def)
  have addP2P: "keyRing (snd (safeAddKey c (P2pKeyV2 v) cbs km)) =
     (keyRing km)\<lparr>P2P := (P2P (keyRing km))
        (ident v := (if fst (safeAddKey c (P2pKeyV2 v) cbs km) = None then Some v else None))\<rparr>"
    using safeAddKey_ring [of "P2pKeyV2 v" "''P2P''" c cbs km]
    by (cases "fst (safeAddKey c (P2pKeyV2 v) cbs km)") (simp_all add: SetMapIndex_names ID_def)
  have delP2P: "keyRing (snd (safeRemoveKey c (P2pKeyV2 v) cbs km)) =
     (keyRing km)\<lparr>P2P := (P2P (keyRing km))
        (ident v := (if fst (safeRemoveKey c (P2pKeyV2 v) cbs km) = None then None else Some v))\<rparr>"
    using safeRemoveKey_ring [of "P2pKeyV2 v" "''P2P''" c cbs km]
    by (cases "fst (safeRemoveKey c (P2pKeyV2 v) cbs km)") (simp_all add: SetMapIndex_names ID_def)
  have addVRF: "keyRing (snd (safeAddKey c (VrfKeyV2 v) cbs km)) =
     (keyRing km)\<lparr>VRF := (VRF (keyRing km))
        (ident v := (if fst (safeAddKey c (VrfKeyV2 v) cbs km) = None then Some v else None))\<rparr>"
    using safeAddKey_ring [of "VrfKeyV2 v" "''VRF''" c cbs km]
    by (cases "fst (safeAddKey c (VrfKeyV2 v) cbs km)") (simp_all add: SetMapIndex_names ID_def)
  have delVRF: "keyRing (snd (safeRemoveKey c (VrfKeyV2 v) cbs km)) =
     (keyRing km)\<lparr>VRF := (VRF (keyRing km))
        (ident v := (if fst (safeRemoveKey c (VrfKeyV2 v) cbs km) = None then None else Some v))\<rparr>"
    using safeRemoveKey_ring [of "VrfKeyV2 v" "''VRF''" c cbs km]
    by (cases "fst (safeRemoveKey c (VrfKeyV2 v) cbs km)") (simp_all add: SetMapIndex_names ID_def)
  show ?thesis
    using unknown addCSA addEth addOCR addP2P addVRF delCSA delEth delOCR delP2P delVRF
    by (intro conjI) assumption+
qed

section \<open>The transactional executor\<close>

text \<open>
  C7. On an open transaction the function runs against that transaction and the trace
  is the function's own: no transaction is begun. On a connection a transaction is
  begun, the function runs against it, and it is committed when the function succeeds
  and rolled back when it fails. On any other queryer the call is rejected with the
  trace untouched, unless the override is set; then the function runs against the
  queryer as it is.
\<close>

theorem SqlxTransaction_dispatch:
  "SqlxTransaction allow (Tx t) fc tr = fc (Tx t) tr \<and>
   SqlxTransaction allow (DB db) fc tr =
     (fst (fc (Tx db) (tr @ [Begin db])),
      snd (fc (Tx db) (tr @ [Begin db])) @
        [if fst (fc (Tx db) (tr @ [Begin db])) = None then Commit db else Rollback db]) \<and>
   SqlxTransaction False (OtherQueryer ty) fc tr = (Some (New ''invalid db type''), tr) \<and>
   SqlxTransaction True (OtherQueryer ty) fc tr = fc (OtherQueryer ty) tr"
  by (simp add: SqlxTransaction_def sqlxTransactionQ_def split: prod.splits option.splits)

text \<open>
  C7, run: a write on a connection is bracketed by begin and commit, a failing one by
  begin and roll-back; inside an open transaction the write is all there is; a mock is
  rejected unless the override is set.
\<close>

theorem SqlxTransaction_dispatch_witness:
  "SqlxTransaction False (DB 1) insertRow [] =
     (None, [Begin 1, Exec (Tx 1) ''INSERT INTO encrypted_key_rings'', Commit 1]) \<and>
   SqlxTransaction False (DB 1) failingWrite [] =
     (Some (New ''constraint violated''), [Begin 1, Rollback 1]) \<and>
   SqlxTransaction False (Tx 7) insertRow [Begin 7] =
     (None, [Begin 7, Exec (Tx 7) ''INSERT INTO encrypted_key_rings'']) \<and>
   SqlxTransaction False (OtherQueryer ''*mocks.Queryer'') insertRow [] =
     (Some (New ''invalid db type''), []) \<and>
   SqlxTransaction True (OtherQueryer ''*mocks.Queryer'') insertRow [] =
     (None, [Exec (OtherQueryer ''*mocks.Queryer'') ''INSERT INTO encrypted_key_rings''])"
  using SqlxTransaction_dispatch [of False 1 insertRow "[]" 1 "''*mocks.Queryer''"]
    SqlxTransaction_dispatch [of False 7 failingWrite "[]" 1 "''*mocks.Queryer''"]
    SqlxTransaction_dispatch [of False 7 insertRow "[Begin 7]" 1 "''*mocks.Queryer''"]
  by (simp add: insertRow_def failingWrite_def)

section \<open>Migration\<close>

text \<open>
  C6, as the code has it. On an unlocked key manager, when the fetch of a family fails
  (the families before it having been fetched), \<^verbatim>\<open>Migrate\<close> returns the error of the fetch
  as it is; the database and the maps of the failing family and of the families after
  it are as before the call. For CSA the whole state is as before. For Eth, reached
  when the four families are merged and saved, the Eth map is as before.
\<close>

theorem Migrate_fetch_failure:
  assumes "\<not> isLocked km"
  shows "(csaV1 src = Inl e \<longrightarrow> Migrate c src pw chain km = (Some e, km)) \<and>
         (csaV1 src = Inr ks1 \<and> ocrV1 src = Inl e \<longrightarrow>
            fst (Migrate c src pw chain km) = Some e \<and>
            orm (snd (Migrate c src pw chain km)) = orm km \<and>
            OCR (keyRing (snd (Migrate c src pw chain km))) = OCR (keyRing km) \<and>
            P2P (keyRing (snd (Migrate c src pw chain km))) = P2P (keyRing km) \<and>
            VRF (keyRing (snd (Migrate c src pw chain km))) = VRF (keyRing km) \<and>
            Eth (keyRing (snd (Migrate c src pw chain km))) = Eth (keyRing km)) \<and>
         (csaV1 src = Inr ks1 \<and> ocrV1 src = Inr ks2 \<and> p2pV1 src = Inl e \<longrightarrow>
            fst (Migrate c src pw chain km) = Some e \<and>
            orm (snd (Migrate c src pw chain km)) = orm km \<and>
            P2P (keyRing (snd (Migrate c src pw chain km))) = P2P (keyRing km) \<and>
            VRF (keyRing (snd (Migrate c src pw chain km))) = VRF (keyRing km) \<and>
            Eth (keyRing (snd (Migrate c src pw chain km))) = Eth (keyRing km)) \<and>
         (csaV1 src = Inr ks1 \<and> ocrV1 src = Inr ks2 \<and> p2pV1 src = Inr ks3 \<and>
          vrfV1 src pw = Inl e \<longrightarrow>
            fst (Migrate c src pw chain km) = Some e \<and>
            orm (snd (Migrate c src pw chain km)) = orm km \<and>
            VRF (keyRing (snd (Migrate c src pw chain km))) = VRF (keyRing km) \<and>
            Eth (keyRing (snd (Migrate c src pw chain km))) = Eth (keyRing km)) \<and>
         (fst (migrateFamilies src pw km) = None \<and>
          fst (save c [] (snd (migrateFamilies src pw km))) = None \<and>
          ethV1 src chain = Inl e \<longrightarrow>
            fst (Migrate c src pw chain km) = Some e \<and>
            Eth (keyRing (snd (Migrate c src pw chain km))) = Eth (keyRing km))"
proof (intro conjI impI)
  assume "csaV1 src = Inl e"
  then show "Migrate c src pw chain km = (Some e, km)"
    using assms by (simp add: Migrate_def migrateFamilies_csa)
next
  assume a: "csaV1 src = Inr ks1 \<and> ocrV1 src = Inl e"
  then have m: "Migrate c src pw chain km =
      (Some e, km\<lparr>keyRing := (keyRing km)\<lparr>CSA := migrateKeys ks1 (CSA (keyRing km))\<rparr>\<rparr>)"
    using assms by (simp add: Migrate_def migrateFamilies_ocr)
  show "fst (Migrate c src pw chain km) = Some e"
    "orm (snd (Migrate c src pw chain km)) = orm km"
    "OCR (keyRing (snd (Migrate c src pw chain km))) = OCR (keyRing km)"
    "P2P (keyRing (snd (Migrate c src pw chain km))) = P2P (keyRing km)"
    "VRF (keyRing (snd (Migrate c src pw chain km))) = VRF (keyRing km)"
    "Eth (keyRing (snd (Migrate c src pw chain km))) = Eth (keyRing km)"
    by (simp_all add: m)
next
  assume a: "csaV1 src = Inr ks1 \<and> ocrV1 src = Inr ks2 \<and> p2pV1 src = Inl e"
  then have m: "Migrate c src pw chain km =
      (Some e, km\<lparr>keyRing := (keyRing km)\<lparr>CSA := migrateKeys ks1 (CSA (keyRing km)),
                                           OCR := migrateKeys ks2 (OCR (keyRing km))\<rparr>\<rparr>)"
    using assms by (simp add: Migrate_def migrateFamilies_p2p)
  show "fst (Migrate c src pw chain km) = Some e"
    "orm (snd (Migrate c src pw chain km)) = orm km"
    "P2P (keyRing (snd (Migrate c src pw chain km))) = P2P (keyRing km)"
    "VRF (keyRing (snd (Migrate c src pw chain km))) = VRF (keyRing km)"
    "Eth (keyRing (snd (Migrate c src pw chain km))) = Eth (keyRing km)"
    by (simp_all add: m)
next
  assume a: "csaV1 src = Inr ks1 \<and> ocrV1 src = Inr ks2 \<and> p2pV1 src = Inr ks3 \<and>
          vrfV1 src pw = Inl e"
  then have m: "Migrate c src pw chain km =
      (Some e, km\<lparr>keyRing := (keyRing km)\<lparr>CSA := migrateKeys ks1 (CSA (keyRing km)),
                                           OCR := migrateKeys ks2 (OCR (keyRing km)),
                                           P2P := migrateKeys ks3 (P2P (keyRing km))\<rparr>\<rparr>)"
    using assms by (simp add: Migrate_def migrateFamilies_vrf)
  show "fst (Migrate c src pw chain km) = Some e"
    "orm (snd (Migrate c src pw chain km)) = orm km"
    "VRF (keyRing (snd (Migrate c src pw chain km))) = VRF (keyRing km)"
    "Eth (keyRing (snd (Migrate c src pw chain km))) = Eth (keyRing km)"
    by (simp_all add: m)
next
  assume a: "fst (migrateFamilies src pw km) = None \<and>
          fst (save c [] (snd (migrateFamilies src pw km))) = None \<and>
          ethV1 src chain = Inl e"
  obtain km4 where f: "migrateFamilies src pw km = (None, km4)"
    using a by (cases "migrateFamilies src pw km") simp
  obtain km5 where s: "save c [] km4 = (None, km5)"
    using a f by (cases "save c [] km4") simp
  have m: "Migrate c src pw chain km = (Some e, km5)"
    using assms a f s by (simp add: Migrate_def)
  have "keyRing km5 = keyRing km4" using save_fields(1) [of c "[]" km4] s by simp
  moreover have "Eth (keyRing km4) = Eth (keyRing km)"
    using migrateFamilies_fields(5) [of src pw km] f by simp
  ultimately show "fst (Migrate c src pw chain km) = Some e"
    "Eth (keyRing (snd (Migrate c src pw chain km))) = Eth (keyRing km)"
    by (simp_all add: m)
qed

text \<open>C6, on a source whose OCR fetch fails after the CSA keys were fetched.\<close>

theorem Migrate_fetch_failure_witness:
  "fst (Migrate memORM legacyOcrDown ''vrf-pw'' 1 (kmOpen dbA)) = Some (New ''connection refused'') \<and>
   orm (snd (Migrate memORM legacyOcrDown ''vrf-pw'' 1 (kmOpen dbA))) = orm (kmOpen dbA) \<and>
   OCR (keyRing (snd (Migrate memORM legacyOcrDown ''vrf-pw'' 1 (kmOpen dbA)))) = OCR (keyRing (kmOpen dbA)) \<and>
   P2P (keyRing (snd (Migrate memORM legacyOcrDown ''vrf-pw'' 1 (kmOpen dbA)))) = P2P (keyRing (kmOpen dbA)) \<and>
   VRF (keyRing (snd (Migrate memORM legacyOcrDown ''vrf-pw'' 1 (kmOpen dbA)))) = VRF (keyRing (kmOpen dbA)) \<and>
   Eth (keyRing (snd (Migrate memORM legacyOcrDown ''vrf-pw'' 1 (kmOpen dbA)))) = Eth (keyRing (kmOpen dbA))"
proof -
  have fetch: "csaV1 legacyOcrDown = Inr [keyC] \<and> ocrV1 legacyOcrDown = Inl (New ''connection refused'')"
    by (simp add: legacyOcrDown_def)
  from Migrate_fetch_failure [OF kmOpen_unlocked, of legacyOcrDown "New ''connection refused''"
        memORM "''vrf-pw''" 1 dbA "[keyC]", THEN conjunct2, THEN conjunct1, rule_format, OF fetch]
  show ?thesis .
qed

text \<open>
  C6 as stated fails. The OCR fetch fails with \<open>connection refused\<close>; \<^verbatim>\<open>Migrate\<close> returns
  that very error (line 116), which wraps nothing and names no family.
\<close>

theorem Migrate_error_unwrapped_counterexample:
  "ocrV1 legacyOcrDown = Inl (New ''connection refused'') \<and>
   fst (Migrate memORM legacyOcrDown ''vrf-pw'' 1 (kmOpen dbA)) = Some (New ''connection refused'') \<and>
   \<not> isMigrationError (New ''connection refused'')
       (the (fst (Migrate memORM legacyOcrDown ''vrf-pw'' 1 (kmOpen dbA))))"
proof -
  have fetch: "csaV1 legacyOcrDown = Inr [keyC]" "ocrV1 legacyOcrDown = Inl (New ''connection refused'')"
    by (simp_all add: legacyOcrDown_def)
  have run: "fst (Migrate memORM legacyOcrDown ''vrf-pw'' 1 (kmOpen dbA)) = Some (New ''connection refused'')"
    using kmOpen_unlocked [of dbA] by (simp add: Migrate_def migrateFamilies_ocr [OF fetch])
  have "\<not> isMigrationError (New ''connection refused'') (New ''connection refused'')"
    by (simp add: isMigrationError_def)
  with run fetch(2) show ?thesis by simp
qed

text \<open>
  C5, as the code has it. After a run of \<^verbatim>\<open>Migrate\<close> that succeeded, a second run on the
  same legacy source skips every key: it does exactly what the one save of the merged
  families (line 147) does. The ring after it is the ring after the first run, so the ids
  of every family are the same and none is held twice, and it returns no error when that
  save returns none.
\<close>

theorem Migrate_idempotent:
  assumes "Migrate c src pw chain km = (None, km1)"
  shows "Migrate c src pw chain km1 = save c [] km1 \<and>
         keyRing (snd (Migrate c src pw chain km1)) = keyRing km1 \<and>
         (fst (save c [] km1) = None \<longrightarrow> fst (Migrate c src pw chain km1) = None)"
proof -
  from assms obtain ks1 ks2 ks3 ks4 ethKeys states km5 where
    nl: "\<not> isLocked km" and fs: "csaV1 src = Inr ks1" "ocrV1 src = Inr ks2" "p2pV1 src = Inr ks3"
      "vrfV1 src pw = Inr ks4" and e: "ethV1 src chain = Inr (ethKeys, states)"
    and s: "save c [] (km\<lparr>keyRing := (keyRing km)\<lparr>CSA := migrateKeys ks1 (CSA (keyRing km)),
                                       OCR := migrateKeys ks2 (OCR (keyRing km)),
                                       P2P := migrateKeys ks3 (P2P (keyRing km)),
                                       VRF := migrateKeys ks4 (VRF (keyRing km))\<rparr>\<rparr>) = (None, km5)"
    and m: "migrateEth c ethKeys states 0 km5 = (None, km1)"
    by (rule Migrate_ok)
  note S = save_ok [OF s]
  note M = migrateEth_ok [OF m]
  have csa: "CSA (keyRing km1) = migrateKeys ks1 (CSA (keyRing km))"
    and ocr: "OCR (keyRing km1) = migrateKeys ks2 (OCR (keyRing km))"
    and p2p: "P2P (keyRing km1) = migrateKeys ks3 (P2P (keyRing km))"
    and vrf: "VRF (keyRing km1) = migrateKeys ks4 (VRF (keyRing km))"
    and eth: "Eth (keyRing km1) = migrateKeys ethKeys (Eth (keyRing km5))"
    and pw: "password km1 = password km"
    using M S by simp_all
  have nl1: "\<not> isLocked km1" using nl pw by (simp add: isLocked_def)
  have fam: "migrateFamilies src pw km1 = (None, km1)"
    by (simp add: migrateFamilies_ok [OF fs] csa ocr p2p vrf migrateKeys_again)
  obtain r km6 where s1: "save c [] km1 = (r, km6)" by (cases "save c [] km1")
  have ring6: "keyRing km6 = keyRing km1" using save_fields(1) [of c "[]" km1] s1 by simp
  have run: "Migrate c src pw chain km1 = (r, km6)"
  proof (cases r)
    case None
    have "migrateEth c ethKeys states 0 km6 = (None, km6)"
      by (rule migrateEth_skip) (simp add: ring6 eth migrateKeys_present)
    then show ?thesis using nl1 fam s1 None e by (simp add: Migrate_def)
  next
    case (Some err)
    then show ?thesis using nl1 fam s1 by (simp add: Migrate_def)
  qed
  show ?thesis using run s1 ring6 by simp
qed

text \<open>C5, on the source \<open>legacyA\<close>: the first run succeeds, the second returns no error and leaves the ring as it is.\<close>

theorem Migrate_idempotent_witness:
  "fst (Migrate memORM legacyA ''vrf-pw'' 1 (kmOpen dbA)) = None \<and>
   fst (Migrate memORM legacyA ''vrf-pw'' 1
          (snd (Migrate memORM legacyA ''vrf-pw'' 1 (kmOpen dbA)))) = None \<and>
   keyRing (snd (Migrate memORM legacyA ''vrf-pw'' 1
                   (snd (Migrate memORM legacyA ''vrf-pw'' 1 (kmOpen dbA))))) =
     keyRing (snd (Migrate memORM legacyA ''vrf-pw'' 1 (kmOpen dbA)))"
proof -
  let ?km1 = "snd (Migrate memORM legacyA ''vrf-pw'' 1 (kmOpen dbA))"
  have run: "Migrate memORM legacyA ''vrf-pw'' 1 (kmOpen dbA) = (None, ?km1)"
    using run_mem(1) by (metis prod.collapse)
  have "fst (save memORM [] ?km1) = None"
    using save_memORM_up [OF run_mem(2), of "[]"] by simp
  with Migrate_idempotent [OF run]
  have "fst (Migrate memORM legacyA ''vrf-pw'' 1 ?km1) = None"
    and "keyRing (snd (Migrate memORM legacyA ''vrf-pw'' 1 ?km1)) = keyRing ?km1"
    by blast+
  with run_mem(1) show ?thesis by blast
qed

text \<open>
  C5 as stated fails. The store takes three saves and is down from the fourth. The first
  run saves three times (the merged families, the key \<open>0xB\<close> with its state, and once
  more) and succeeds; the second run skips every key, saves once at line 147 and
  returns the error of that save.
\<close>

theorem Migrate_second_run_error_counterexample:
  "fst (Migrate (limited memORM) legacyA ''vrf-pw'' 1 kmLimited) = None \<and>
   fst (Migrate (limited memORM) legacyA ''vrf-pw'' 1
          (snd (Migrate (limited memORM) legacyA ''vrf-pw'' 1 kmLimited))) =
     Some (New ''database is down'')"
proof -
  have enc: "Encrypt (limited memORM) kr pw params = Inr (pw, kr)" for kr pw params
    by (simp add: limited_def memORM_def)
  have sv: "saveEncryptedKeyRing (limited memORM) d ekr cbs =
     (if snd d = 0 then (Some (New ''database is down''), d)
      else if failing (fst d) then (Some (New ''database is down''), (fst d, snd d - 1))
      else (None, ((fst d)\<lparr>blob := Some ekr, stateRows := stateRows (fst d) @ stateWrites cbs\<rparr>,
                   snd d - 1)))" for d ekr cbs
    by (simp add: limited_def memORM_def)
  show ?thesis
    by (simp add: Migrate_def isLocked_def kmLimited_def migrateFamilies_def legacyA_def Let_def
        save_def enc sv dbA_def addEthKeyWithState_def safeAddKey_def SetMapIndex_names
        ID_def keyA_def keyB_def keyC_def ringA_def emptyKeyRing_def)
qed

text \<open>
  C4, as the code has it. The families are taken in the order CSA, OCR, P2P, VRF: on an
  unlocked key manager, when the fetch of one of them fails, \<^verbatim>\<open>Migrate\<close> returns that
  error with the families before it in this order merged into the ring in memory, the
  failing one and those after it untouched, and nothing saved. In a run that succeeds, on
  a store that records the saves: each of the maps CSA, OCR, P2P, VRF and Eth keeps its
  entries and takes, for every other id of its legacy keys, the first legacy key with
  that id. What was recorded before is untouched. The first save of the run has no
  callback, and its blob encrypts the ring with the four families merged and the Eth map
  as before: the families are merged in memory and saved once. After it come two saves
  for every Eth key that is added, in the order of the source: the save of
  \<^verbatim>\<open>addEthKeyWithState\<close>, whose one callback writes the state of that key, and the save
  of line 162, without callback.
\<close>

theorem Migrate_saves:
  "(Migrate (recording c) src pw chain km = (None, km') \<and>
    csaV1 src = Inr csaKeys \<and> ocrV1 src = Inr ocrKeys \<and> p2pV1 src = Inr p2pKeys \<and>
    vrfV1 src pw = Inr vrfKeys \<and> ethV1 src chain = Inr (ethKeys, states) \<longrightarrow>
      CSA (keyRing km') = map_of (map (\<lambda>k. (ident k, k)) csaKeys) ++ CSA (keyRing km) \<and>
      OCR (keyRing km') = map_of (map (\<lambda>k. (ident k, k)) ocrKeys) ++ OCR (keyRing km) \<and>
      P2P (keyRing km') = map_of (map (\<lambda>k. (ident k, k)) p2pKeys) ++ P2P (keyRing km) \<and>
      VRF (keyRing km') = map_of (map (\<lambda>k. (ident k, k)) vrfKeys) ++ VRF (keyRing km) \<and>
      Eth (keyRing km') = map_of (map (\<lambda>k. (ident k, k)) ethKeys) ++ Eth (keyRing km) \<and>
      take (length (snd (orm km))) (snd (orm km')) = snd (orm km) \<and>
      map snd (drop (length (snd (orm km))) (snd (orm km'))) =
        [] # concat (map (\<lambda>(k, st). [[InsertKeyState st], []])
                       (freshEth (zip ethKeys states) (Eth (keyRing km)))) \<and>
      Encrypt c ((keyRing km)\<lparr>CSA := CSA (keyRing km'), OCR := OCR (keyRing km'),
                               P2P := P2P (keyRing km'), VRF := VRF (keyRing km')\<rparr>)
                (password km) (scryptParams km) =
        Inr (fst (snd (orm km') ! length (snd (orm km))))) \<and>
   (\<not> isLocked km \<and> csaV1 src = Inl e \<longrightarrow>
      Migrate (recording c) src pw chain km = (Some e, km)) \<and>
   (\<not> isLocked km \<and> csaV1 src = Inr csaKeys \<and> ocrV1 src = Inl e \<longrightarrow>
      Migrate (recording c) src pw chain km =
        (Some e, km\<lparr>keyRing := (keyRing km)
           \<lparr>CSA := map_of (map (\<lambda>k. (ident k, k)) csaKeys) ++ CSA (keyRing km)\<rparr>\<rparr>)) \<and>
   (\<not> isLocked km \<and> csaV1 src = Inr csaKeys \<and> ocrV1 src = Inr ocrKeys \<and>
    p2pV1 src = Inl e \<longrightarrow>
      Migrate (recording c) src pw chain km =
        (Some e, km\<lparr>keyRing := (keyRing km)
           \<lparr>CSA := map_of (map (\<lambda>k. (ident k, k)) csaKeys) ++ CSA (keyRing km),
            OCR := map_of (map (\<lambda>k. (ident k, k)) ocrKeys) ++ OCR (keyRing km)\<rparr>\<rparr>)) \<and>
   (\<not> isLocked km \<and> csaV1 src = Inr csaKeys \<and> ocrV1 src = Inr ocrKeys \<and>
    p2pV1 src = Inr p2pKeys \<and> vrfV1 src pw = Inl e \<longrightarrow>
      Migrate (recording c) src pw chain km =
        (Some e, km\<lparr>keyRing := (keyRing km)
           \<lparr>CSA := map_of (map (\<lambda>k. (ident k, k)) csaKeys) ++ CSA (keyRing km),
            OCR := map_of (map (\<lambda>k. (ident k, k)) ocrKeys) ++ OCR (keyRing km),
            P2P := map_of (map (\<lambda>k. (ident k, k)) p2pKeys) ++ P2P (keyRing km)\<rparr>\<rparr>))"
proof (intro conjI impI)
  assume a: "Migrate (recording c) src pw chain km = (None, km') \<and>
    csaV1 src = Inr csaKeys \<and> ocrV1 src = Inr ocrKeys \<and> p2pV1 src = Inr p2pKeys \<and>
    vrfV1 src pw = Inr vrfKeys \<and> ethV1 src chain = Inr (ethKeys, states)"
  then have h: "Migrate (recording c) src pw chain km = (None, km')"
    "csaV1 src = Inr csaKeys" "ocrV1 src = Inr ocrKeys" "p2pV1 src = Inr p2pKeys"
    "vrfV1 src pw = Inr vrfKeys" "ethV1 src chain = Inr (ethKeys, states)" by simp_all
  note T = Migrate_success_trace [OF h]
  show "CSA (keyRing km') = map_of (map (\<lambda>k. (ident k, k)) csaKeys) ++ CSA (keyRing km)"
    "OCR (keyRing km') = map_of (map (\<lambda>k. (ident k, k)) ocrKeys) ++ OCR (keyRing km)"
    "P2P (keyRing km') = map_of (map (\<lambda>k. (ident k, k)) p2pKeys) ++ P2P (keyRing km)"
    "VRF (keyRing km') = map_of (map (\<lambda>k. (ident k, k)) vrfKeys) ++ VRF (keyRing km)"
    "Eth (keyRing km') = map_of (map (\<lambda>k. (ident k, k)) ethKeys) ++ Eth (keyRing km)"
    "take (length (snd (orm km))) (snd (orm km')) = snd (orm km)"
    "map snd (drop (length (snd (orm km))) (snd (orm km'))) =
        [] # concat (map (\<lambda>(k, st). [[InsertKeyState st], []])
                       (freshEth (zip ethKeys states) (Eth (keyRing km))))"
    "Encrypt c ((keyRing km)\<lparr>CSA := CSA (keyRing km'), OCR := OCR (keyRing km'),
                               P2P := P2P (keyRing km'), VRF := VRF (keyRing km')\<rparr>)
                (password km) (scryptParams km) =
        Inr (fst (snd (orm km') ! length (snd (orm km))))"
    using T by blast+
next
  assume "\<not> isLocked km \<and> csaV1 src = Inl e"
  then show "Migrate (recording c) src pw chain km = (Some e, km)"
    by (simp add: Migrate_def migrateFamilies_csa)
next
  assume a: "\<not> isLocked km \<and> csaV1 src = Inr csaKeys \<and> ocrV1 src = Inl e"
  then have "migrateFamilies src pw km =
      (Some e, km\<lparr>keyRing := (keyRing km)\<lparr>CSA := migrateKeys csaKeys (CSA (keyRing km))\<rparr>\<rparr>)"
    by (simp add: migrateFamilies_ocr)
  with a show "Migrate (recording c) src pw chain km =
        (Some e, km\<lparr>keyRing := (keyRing km)
           \<lparr>CSA := map_of (map (\<lambda>k. (ident k, k)) csaKeys) ++ CSA (keyRing km)\<rparr>\<rparr>)"
    by (simp add: Migrate_def migrateKeys_map_add)
next
  assume a: "\<not> isLocked km \<and> csaV1 src = Inr csaKeys \<and> ocrV1 src = Inr ocrKeys \<and>
    p2pV1 src = Inl e"
  then have "migrateFamilies src pw km =
      (Some e, km\<lparr>keyRing := (keyRing km)\<lparr>CSA := migrateKeys csaKeys (CSA (keyRing km)),
                                           OCR := migrateKeys ocrKeys (OCR (keyRing km))\<rparr>\<rparr>)"
    by (simp add: migrateFamilies_p2p)
  with a show "Migrate (recording c) src pw chain km =
        (Some e, km\<lparr>keyRing := (keyRing km)
           \<lparr>CSA := map_of (map (\<lambda>k. (ident k, k)) csaKeys) ++ CSA (keyRing km),
            OCR := map_of (map (\<lambda>k. (ident k, k)) ocrKeys) ++ OCR (keyRing km)\<rparr>\<rparr>)"
    by (simp add: Migrate_def migrateKeys_map_add)
next
  assume a: "\<not> isLocked km \<and> csaV1 src = Inr csaKeys \<and> ocrV1 src = Inr ocrKeys \<and>
    p2pV1 src = Inr p2pKeys \<and> vrfV1 src pw = Inl e"
  then have "migrateFamilies src pw km =
      (Some e, km\<lparr>keyRing := (keyRing km)\<lparr>CSA := migrateKeys csaKeys (CSA (keyRing km)),
                                           OCR := migrateKeys ocrKeys (OCR (keyRing km)),
                                           P2P := migrateKeys p2pKeys (P2P (keyRing km))\<rparr>\<rparr>)"
    by (simp add: migrateFamilies_vrf)
  with a show "Migrate (recording c) src pw chain km =
        (Some e, km\<lparr>keyRing := (keyRing km)
           \<lparr>CSA := map_of (map (\<lambda>k. (ident k, k)) csaKeys) ++ CSA (keyRing km),
            OCR := map_of (map (\<lambda>k. (ident k, k)) ocrKeys) ++ OCR (keyRing km),
            P2P := map_of (map (\<lambda>k. (ident k, k)) p2pKeys) ++ P2P (keyRing km)\<rparr>\<rparr>)"
    by (simp add: Migrate_def migrateKeys_map_add)
qed

text \<open>
  C4, on the source \<open>legacyA\<close>: the Eth key \<open>0xA\<close> is in the ring, \<open>0xB\<close> is added. And on
  a source whose P2P fetch fails: the CSA and the OCR key are in the ring, the VRF key
  is not, and nothing was saved.
\<close>

theorem Migrate_saves_witness:
  "fst (Migrate (recording memORM) legacyA ''vrf-pw'' 1 kmRec) = None \<and>
   CSA (keyRing (snd (Migrate (recording memORM) legacyA ''vrf-pw'' 1 kmRec))) ''csa-1'' = Some keyC \<and>
   Eth (keyRing (snd (Migrate (recording memORM) legacyA ''vrf-pw'' 1 kmRec))) ''0xA'' = Some keyA \<and>
   Eth (keyRing (snd (Migrate (recording memORM) legacyA ''vrf-pw'' 1 kmRec))) ''0xB'' = Some keyB \<and>
   map snd (drop 0 (snd (orm (snd (Migrate (recording memORM) legacyA ''vrf-pw'' 1 kmRec))))) =
     [[], [InsertKeyState stateB], []] \<and>
   fst (Migrate (recording memORM) legacyP2pDown ''vrf-pw'' 1 kmRec) = Some (New ''connection refused'') \<and>
   CSA (keyRing (snd (Migrate (recording memORM) legacyP2pDown ''vrf-pw'' 1 kmRec))) ''csa-1'' = Some keyC \<and>
   OCR (keyRing (snd (Migrate (recording memORM) legacyP2pDown ''vrf-pw'' 1 kmRec))) ''ocr-1'' = Some keyO \<and>
   VRF (keyRing (snd (Migrate (recording memORM) legacyP2pDown ''vrf-pw'' 1 kmRec))) ''vrf-1'' = None \<and>
   snd (orm (snd (Migrate (recording memORM) legacyP2pDown ''vrf-pw'' 1 kmRec))) = []"
proof -
  let ?km' = "snd (Migrate (recording memORM) legacyA ''vrf-pw'' 1 kmRec)"
  have run: "Migrate (recording memORM) legacyA ''vrf-pw'' 1 kmRec = (None, ?km')"
    using run_rec(1) by (metis prod.collapse)
  have fs: "csaV1 legacyA = Inr [keyC]" "ocrV1 legacyA = Inr []" "p2pV1 legacyA = Inr []"
    "vrfV1 legacyA ''vrf-pw'' = Inr []" "ethV1 legacyA 1 = Inr ([keyA, keyB], [stateA, stateB])"
    by (simp_all add: legacyA_def)
  have k: "keyRing kmRec = ringA" "snd (orm kmRec) = []" by (simp_all add: kmRec_def)
  have fr: "freshEth (zip [keyA, keyB] [stateA, stateB]) (Eth ringA) = [(keyB, stateB)]"
    by (simp add: ringA_def emptyKeyRing_def keyA_def keyB_def)
  note T = Migrate_saves [where c = memORM and src = legacyA and pw = "''vrf-pw''" and chain = 1
      and km = kmRec and km' = ?km' and csaKeys = "[keyC]" and ocrKeys = "[]" and p2pKeys = "[]"
      and vrfKeys = "[]" and ethKeys = "[keyA, keyB]" and states = "[stateA, stateB]",
      THEN conjunct1, rule_format, OF conjI [OF run conjI [OF fs(1) conjI [OF fs(2)
        conjI [OF fs(3) conjI [OF fs(4) fs(5)]]]]], unfolded k fr]
  have csa: "CSA (keyRing ?km') = map_of (map (\<lambda>k. (ident k, k)) [keyC]) ++ CSA ringA"
    and eth: "Eth (keyRing ?km') = map_of (map (\<lambda>k. (ident k, k)) [keyA, keyB]) ++ Eth ringA"
    using T by blast+
  have calls: "map snd (drop 0 (snd (orm ?km'))) = [[], [InsertKeyState stateB], []]"
    using T by simp
  have c1: "CSA (keyRing ?km') ''csa-1'' = Some keyC"
    by (simp add: csa keyC_def ringA_def emptyKeyRing_def)
  have e1: "Eth (keyRing ?km') ''0xA'' = Some keyA" "Eth (keyRing ?km') ''0xB'' = Some keyB"
    by (simp_all add: eth keyA_def keyB_def ringA_def emptyKeyRing_def map_add_def)
  have down: "\<not> isLocked kmRec \<and> csaV1 legacyP2pDown = Inr [keyC] \<and>
      ocrV1 legacyP2pDown = Inr [keyO] \<and> p2pV1 legacyP2pDown = Inl (New ''connection refused'')"
    by (simp add: kmRec_unlocked legacyP2pDown_def)
  note D = Migrate_saves [where c = memORM and src = legacyP2pDown and pw = "''vrf-pw''"
      and chain = 1 and km = kmRec and csaKeys = "[keyC]" and ocrKeys = "[keyO]"
      and e = "New ''connection refused''",
      THEN conjunct2, THEN conjunct2, THEN conjunct2, THEN conjunct1, rule_format, OF down]
  have d: "fst (Migrate (recording memORM) legacyP2pDown ''vrf-pw'' 1 kmRec) = Some (New ''connection refused'')"
    "CSA (keyRing (snd (Migrate (recording memORM) legacyP2pDown ''vrf-pw'' 1 kmRec))) ''csa-1'' = Some keyC"
    "OCR (keyRing (snd (Migrate (recording memORM) legacyP2pDown ''vrf-pw'' 1 kmRec))) ''ocr-1'' = Some keyO"
    "VRF (keyRing (snd (Migrate (recording memORM) legacyP2pDown ''vrf-pw'' 1 kmRec))) ''vrf-1'' = None"
    "snd (orm (snd (Migrate (recording memORM) legacyP2pDown ''vrf-pw'' 1 kmRec))) = []"
    by (simp_all add: D k ringA_def emptyKeyRing_def keyC_def keyO_def)
  from run_rec(1) c1 e1 calls d show ?thesis by blast
qed

text \<open>
  C4 as stated fails. The source holds the Eth keys \<open>0xA\<close>, which the ring holds, and
  \<open>0xB\<close>, which is new. The run saves three times: the merged families, the new key with
  the write of its state, and once more without callback. One save for the one new Eth
  key would give two.
\<close>

theorem Migrate_second_save_counterexample:
  "fst (Migrate (recording memORM) legacyA ''vrf-pw'' 1 kmRec) = None \<and>
   map snd (snd (orm (snd (Migrate (recording memORM) legacyA ''vrf-pw'' 1 kmRec)))) =
     [[], [InsertKeyState stateB], []] \<and>
   map snd (snd (orm (snd (Migrate (recording memORM) legacyA ''vrf-pw'' 1 kmRec)))) \<noteq>
     [[], [InsertKeyState stateB]]"
  by (simp add: run_rec)

end
